theory Spec2Isabelle
  imports Complex_Main
begin

section \<open>Python exceptions and decimal numbers\<close>

text \<open>
  The trade engine of cbpro-trader (daemon/engine/TradeEngine.py) computes every amount and
  price with Python's \<^verbatim>\<open>decimal.Decimal\<close> under the default context: 28 significant
  digits, ROUND_HALF_EVEN, exponents between -999999 and 999999, with InvalidOperation,
  DivisionByZero and Overflow trapped (raised as exceptions). A finite Decimal is a sign, a
  coefficient and an exponent; NaN and infinities are not modelled (no operation of the engine
  produces one without raising first). Arithmetic follows the library: the exact result, then
  rounding to the context precision.
\<close>

datatype exn = InvalidOperation | DivisionByZero | Overflow | TypeError | AttributeError
  | KeyError | ValueError | ExchangeError

datatype dec = Dec (dsign: bool) (coeff: nat) (expo: int)

definition valof :: "dec \<Rightarrow> rat" where
  "valof d = (if dsign d then - 1 else 1) * of_nat (coeff d) *
     (if 0 \<le> expo d then 10 ^ nat (expo d) else 1 / 10 ^ nat (- expo d))"

fun ndigits :: "nat \<Rightarrow> nat" where
  "ndigits n = (if n < 10 then 1 else Suc (ndigits (n div 10)))"

declare ndigits.simps [simp del]

definition adjusted :: "dec \<Rightarrow> int" where
  "adjusted d = expo d + int (ndigits (coeff d)) - 1"

definition prec :: nat where "prec = 28"
definition Emax :: int where "Emax = 999999"
definition Emin :: int where "Emin = - 999999"
definition Etiny :: int where "Etiny = Emin - int prec + 1"
definition Etop :: int where "Etop = Emax - int prec + 1"

definition round_half_even :: "nat \<Rightarrow> nat \<Rightarrow> nat" where
  "round_half_even c k =
     (let q = c div 10 ^ k; r = c mod 10 ^ k in
      if 2 * r > 10 ^ k \<or> (2 * r = 10 ^ k \<and> odd q) then q + 1 else q)"

definition dec_fix :: "dec \<Rightarrow> exn + dec" where
  "dec_fix d =
     (if coeff d = 0 then Inr (Dec (dsign d) 0 (min (max (expo d) Etiny) Emax))
      else
        let exp_min0 = int (ndigits (coeff d)) + expo d - int prec in
        if exp_min0 > Etop then Inl Overflow
        else
          let exp_min = max exp_min0 Etiny in
          if expo d < exp_min then
            (let c = round_half_even (coeff d) (nat (exp_min - expo d)) in
             if ndigits c > prec then
               (if exp_min + 1 > Etop then Inl Overflow
                else Inr (Dec (dsign d) (c div 10) (exp_min + 1)))
             else Inr (Dec (dsign d) c exp_min))
          else Inr d)"

definition signed_coeff :: "dec \<Rightarrow> int" where
  "signed_coeff d = (if dsign d then - int (coeff d) else int (coeff d))"

definition dec_add :: "dec \<Rightarrow> dec \<Rightarrow> exn + dec" where
  "dec_add a b =
     (let e = min (expo a) (expo b);
          s = signed_coeff a * 10 ^ nat (expo a - e) + signed_coeff b * 10 ^ nat (expo b - e)
      in dec_fix (Dec (if s = 0 then dsign a \<and> dsign b else s < 0) (nat \<bar>s\<bar>) e))"

definition copy_negate :: "dec \<Rightarrow> dec" where
  "copy_negate d = Dec (\<not> dsign d) (coeff d) (expo d)"

definition dec_sub :: "dec \<Rightarrow> dec \<Rightarrow> exn + dec" where
  "dec_sub a b = dec_add a (copy_negate b)"

definition dec_mul :: "dec \<Rightarrow> dec \<Rightarrow> exn + dec" where
  "dec_mul a b = dec_fix (Dec (dsign a \<noteq> dsign b) (coeff a * coeff b) (expo a + expo b))"

function strip_zeros :: "nat \<Rightarrow> int \<Rightarrow> int \<Rightarrow> nat \<times> int" where
  "strip_zeros c e ideal =
     (if e < ideal \<and> c mod 10 = 0 then strip_zeros (c div 10) (e + 1) ideal else (c, e))"
  by pat_completeness auto
termination
  by (relation "measure (\<lambda>(c, e, ideal). nat (ideal - e))") auto

declare strip_zeros.simps [simp del]

definition dec_div :: "dec \<Rightarrow> dec \<Rightarrow> exn + dec" where
  "dec_div a b =
     (if coeff b = 0 then (if coeff a = 0 then Inl InvalidOperation else Inl DivisionByZero)
      else if coeff a = 0 then dec_fix (Dec (dsign a \<noteq> dsign b) 0 (expo a - expo b))
      else
        let shift = int (ndigits (coeff b)) - int (ndigits (coeff a)) + int prec + 1;
            e = expo a - expo b - shift;
            n = (if 0 \<le> shift then coeff a * 10 ^ nat shift else coeff a);
            m = (if 0 \<le> shift then coeff b else coeff b * 10 ^ nat (- shift));
            q = n div m;
            r = n mod m
        in if r \<noteq> 0 then dec_fix (Dec (dsign a \<noteq> dsign b) (if q mod 5 = 0 then q + 1 else q) e)
           else (case strip_zeros q e (expo a - expo b) of
                   (q', e') \<Rightarrow> dec_fix (Dec (dsign a \<noteq> dsign b) q' e')))"

definition quantize_down :: "int \<Rightarrow> dec \<Rightarrow> exn + dec" where
  "quantize_down e d =
     (if coeff d = 0 then Inr (Dec (dsign d) 0 e)
      else if adjusted d - e + 1 > int prec then Inl InvalidOperation
      else if e \<le> expo d then Inr (Dec (dsign d) (coeff d * 10 ^ nat (expo d - e)) e)
      else Inr (Dec (dsign d) (coeff d div 10 ^ nat (e - expo d)) e))"

definition round_fiat :: "dec \<Rightarrow> exn + dec" where
  "round_fiat money = quantize_down (- 2) money"

definition round_coin :: "dec \<Rightarrow> exn + dec" where
  "round_coin money = quantize_down (- 8) money"

section \<open>Engine state, exchange and environment\<close>

text \<open>
  An order is the dictionary the exchange returns; only the keys the engine reads are kept.
  A missing key is \<open>None\<close>, as \<^verbatim>\<open>dict.get\<close> returns it.
\<close>

record order =
  order_id :: "string option"
  status :: "string option"
  price :: "dec option"
  message :: "string option"

datatype side = Buy | Sell

text \<open>
  The class Product is not part of the engine's file; its attributes are the ones the engine
  reads and writes. The order book of a product belongs to the environment below.
\<close>

record product =
  product_id :: string
  min_size :: dec
  quote_increment :: dec
  meta :: bool
  buy_flag :: bool
  sell_flag :: bool
  order_in_progress :: bool
  open_orders :: "order list"
  last_signal_switch :: rat
  order_thread :: "side option"

datatype market_amount = Funds "dec option" | Size "dec option"

text \<open>
  Every call the engine issues to the exchange client, and every worker thread it starts, is
  appended to the trace \<open>calls\<close>. Amounts and prices are passed to the client as
  \<^verbatim>\<open>str(...)\<close> of a Decimal; the trace keeps the Decimal itself (\<open>None\<close> where the
  engine would pass \<^verbatim>\<open>str(None)\<close>).
\<close>

datatype event =
    PlaceLimitOrder string side dec dec bool
  | PlaceMarketOrder string side market_amount
  | CancelAll string
  | CancelOrder "string option"
  | GetOrder string
  | GetAccounts
  | StartThread side nat

text \<open>
  The balance attributes \<open>btc\<close>, \<open>bch\<close>, \<open>eth\<close>, \<open>ltc\<close> and \<open>fiat\<close> exist only once
  \<^verbatim>\<open>update_amounts\<close> has assigned them: \<open>None\<close> is an attribute that is not set, and
  reading it raises AttributeError. \<open>tick\<close> counts the interactions with the environment.
\<close>

record engine =
  products :: "product list"
  fiat_currency :: string
  is_live :: bool
  max_slippage :: dec
  btc :: "dec option"
  bch :: "dec option"
  eth :: "dec option"
  ltc :: "dec option"
  fiat :: "dec option"
  fiat_equivalent :: dec
  last_balance_update :: rat
  tick :: nat
  calls :: "event list"

datatype accounts = NotAList | Accounts "(string \<times> dec) list"

text \<open>
  The environment answers every read of the outside world: the order books, the wall clock,
  the replies of the exchange client (which may raise), and what the other threads have
  written to a product while a chase sleeps. Each answer is indexed by the tick at which it is
  asked, so an environment is one possible behaviour of the market, the exchange and the other
  threads; a statement for every environment covers them all. Products are referred to by
  their position in \<open>products\<close>.
\<close>

record env =
  get_ask :: "nat \<Rightarrow> nat \<Rightarrow> dec"
  get_bid :: "nat \<Rightarrow> nat \<Rightarrow> dec"
  get_current_ticker :: "nat \<Rightarrow> nat \<Rightarrow> dec option option"
  time_time :: "nat \<Rightarrow> rat"
  get_accounts :: "nat \<Rightarrow> exn + accounts"
  place_limit_order :: "nat \<Rightarrow> exn + order"
  place_market_order :: "nat \<Rightarrow> exn + unit"
  cancel_all :: "nat \<Rightarrow> exn + unit"
  cancel_order :: "nat \<Rightarrow> exn + unit"
  get_order :: "nat \<Rightarrow> exn + order"
  other_threads :: "nat \<Rightarrow> nat \<Rightarrow> product \<Rightarrow> product"

definition bind_exn :: "exn + 'a \<Rightarrow> ('a \<Rightarrow> exn + 'b) \<Rightarrow> exn + 'b" where
  "bind_exn m f = (case m of Inl x \<Rightarrow> Inl x | Inr a \<Rightarrow> f a)"

definition bind_res ::
  "(exn + 'a) \<times> engine \<Rightarrow> ('a \<Rightarrow> engine \<Rightarrow> (exn + 'b) \<times> engine) \<Rightarrow> (exn + 'b) \<times> engine" where
  "bind_res m f = (case m of (Inl x, w) \<Rightarrow> (Inl x, w) | (Inr a, w) \<Rightarrow> f a w)"

definition lift :: "exn + 'a \<Rightarrow> engine \<Rightarrow> (exn + 'a) \<times> engine" where
  "lift r w = (r, w)"

definition next_tick :: "engine \<Rightarrow> engine" where
  "next_tick w = w\<lparr>tick := Suc (tick w)\<rparr>"

definition record_call :: "event \<Rightarrow> engine \<Rightarrow> engine" where
  "record_call c w = w\<lparr>calls := calls w @ [c], tick := Suc (tick w)\<rparr>"

definition upd_product :: "nat \<Rightarrow> (product \<Rightarrow> product) \<Rightarrow> engine \<Rightarrow> engine" where
  "upd_product i f w = w\<lparr>products := (products w)[i := f (products w ! i)]\<rparr>"

text \<open>\<^verbatim>\<open>Decimal(x)\<close>, and arithmetic or comparison with \<open>x\<close>, raise TypeError when \<open>x\<close> is None.\<close>

definition need_dec :: "dec option \<Rightarrow> exn + dec" where
  "need_dec v = (case v of None \<Rightarrow> Inl TypeError | Some d \<Rightarrow> Inr d)"

definition getattr :: "dec option \<Rightarrow> exn + dec option" where
  "getattr v = (case v of None \<Rightarrow> Inl AttributeError | Some d \<Rightarrow> Inr (Some d))"

fun product_index :: "string \<Rightarrow> product list \<Rightarrow> nat option" where
  "product_index pid [] = None"
| "product_index pid (p # ps) =
     (if product_id p = pid then Some 0 else map_option Suc (product_index pid ps))"

definition get_product_by_product_id :: "engine \<Rightarrow> string \<Rightarrow> nat option" where
  "get_product_by_product_id w pid = product_index pid (products w)"

section \<open>Balances\<close>

definition zero_balances :: "engine \<Rightarrow> engine" where
  "zero_balances w = w\<lparr>btc := Some (Dec False 0 (- 1)), bch := Some (Dec False 0 (- 1)),
     eth := Some (Dec False 0 (- 1)), ltc := Some (Dec False 0 (- 1)),
     fiat := Some (Dec False 0 (- 1)), fiat_equivalent := Dec False 0 (- 1)\<rparr>"

fun store_accounts :: "(string \<times> dec) list \<Rightarrow> engine \<Rightarrow> exn + engine" where
  "store_accounts [] w = Inr w"
| "store_accounts ((currency, available) # rest) w =
     (if currency = ''BTC'' then
        bind_exn (round_coin available) (\<lambda>v. store_accounts rest (w\<lparr>btc := Some v\<rparr>))
      else if currency = ''BCH'' then
        bind_exn (round_coin available) (\<lambda>v. store_accounts rest (w\<lparr>bch := Some v\<rparr>))
      else if currency = ''ETH'' then
        bind_exn (round_coin available) (\<lambda>v. store_accounts rest (w\<lparr>eth := Some v\<rparr>))
      else if currency = ''LTC'' then
        bind_exn (round_coin available) (\<lambda>v. store_accounts rest (w\<lparr>ltc := Some v\<rparr>))
      else if currency = fiat_currency w then
        bind_exn (round_fiat available) (\<lambda>v. store_accounts rest (w\<lparr>fiat := Some v\<rparr>))
      else store_accounts rest w)"

definition base_currency :: "string \<Rightarrow> engine \<Rightarrow> exn + dec option" where
  "base_currency pid w =
     (if pid = ''BTC-USD'' then getattr (btc w)
      else if pid = ''BCH-USD'' then getattr (bch w)
      else if pid = ''BCH-EUR'' then getattr (bch w)
      else if pid = ''BCH-BTC'' then getattr (bch w)
      else if pid = ''BTC-EUR'' then getattr (btc w)
      else if pid = ''ETH-USD'' then getattr (eth w)
      else if pid = ''ETH-EUR'' then getattr (eth w)
      else if pid = ''LTC-USD'' then getattr (ltc w)
      else if pid = ''LTC-EUR'' then getattr (ltc w)
      else if pid = ''ETH-BTC'' then getattr (eth w)
      else if pid = ''LTC-BTC'' then getattr (ltc w)
      else Inr None)"

definition quoted_currency :: "string \<Rightarrow> engine \<Rightarrow> exn + dec option" where
  "quoted_currency pid w =
     (if pid = ''BTC-USD'' then getattr (fiat w)
      else if pid = ''BCH-USD'' then getattr (fiat w)
      else if pid = ''BCH-EUR'' then getattr (fiat w)
      else if pid = ''BCH-BTC'' then getattr (btc w)
      else if pid = ''BTC-EUR'' then getattr (fiat w)
      else if pid = ''ETH-USD'' then getattr (fiat w)
      else if pid = ''ETH-EUR'' then getattr (fiat w)
      else if pid = ''LTC-USD'' then getattr (fiat w)
      else if pid = ''LTC-EUR'' then getattr (fiat w)
      else if pid = ''ETH-BTC'' then getattr (btc w)
      else if pid = ''LTC-BTC'' then getattr (btc w)
      else Inr None)"

text \<open>
  The loop of \<^verbatim>\<open>update_amounts\<close> that marks every holding at its ticker price. It asks the
  order book for the ticker three times for one product (twice in the test, once in the body);
  a ticker that is \<open>None\<close> at the second or third read makes \<^verbatim>\<open>.get\<close> raise
  AttributeError, a price that is None at the third makes \<^verbatim>\<open>Decimal(None)\<close> raise
  TypeError.
\<close>

fun add_holdings :: "env \<Rightarrow> nat \<Rightarrow> product list \<Rightarrow> engine \<Rightarrow> (exn + unit) \<times> engine" where
  "add_holdings e i [] w = (Inr (), w)"
| "add_holdings e i (p # ps) w =
     (if meta p then add_holdings e (Suc i) ps w
      else
        case get_current_ticker e (tick w) i of
          None \<Rightarrow> add_holdings e (Suc i) ps (next_tick w)
        | Some _ \<Rightarrow>
            (case get_current_ticker e (Suc (tick w)) i of
               None \<Rightarrow> (Inl AttributeError, next_tick (next_tick w))
             | Some None \<Rightarrow> add_holdings e (Suc i) ps (next_tick (next_tick w))
             | Some (Some _) \<Rightarrow>
                 (case base_currency (product_id p) w of
                    Inl x \<Rightarrow> (Inl x, next_tick (next_tick w))
                  | Inr held \<Rightarrow>
                      (case get_current_ticker e (Suc (Suc (tick w))) i of
                         None \<Rightarrow> (Inl AttributeError, next_tick (next_tick (next_tick w)))
                       | Some None \<Rightarrow> (Inl TypeError, next_tick (next_tick (next_tick w)))
                       | Some (Some pr) \<Rightarrow>
                           (case bind_exn (need_dec held) (\<lambda>h. bind_exn (dec_mul h pr)
                                   (\<lambda>v. dec_add (fiat_equivalent w) v)) of
                              Inl x \<Rightarrow> (Inl x, next_tick (next_tick (next_tick w)))
                            | Inr tot \<Rightarrow>
                                add_holdings e (Suc i) ps
                                  (next_tick (next_tick (next_tick w))
                                     \<lparr>fiat_equivalent := tot\<rparr>))))))"

definition update_amounts :: "env \<Rightarrow> engine \<Rightarrow> (exn + unit) \<times> engine" where
  "update_amounts e w =
     (let now = time_time e (tick w); w1 = next_tick w in
      if now - last_balance_update w1 > 1 then
        (let w2 = next_tick (w1\<lparr>last_balance_update := time_time e (tick w1)\<rparr>);
             reply = get_accounts e (tick w2);
             w3 = record_call GetAccounts w2
         in case bind_exn reply (\<lambda>r. case r of NotAList \<Rightarrow> Inr w3
                                       | Accounts accts \<Rightarrow> store_accounts accts w3) of
              Inl x \<Rightarrow> (Inr (), zero_balances w3)
            | Inr w4 \<Rightarrow>
                bind_res (add_holdings e 0 (products w4) (w4\<lparr>fiat_equivalent := Dec False 0 (- 1)\<rparr>))
                  (\<lambda>_ w5. case bind_exn (getattr (fiat w5)) (\<lambda>f. bind_exn (need_dec f)
                                    (\<lambda>f. dec_add (fiat_equivalent w5) f)) of
                             Inl x \<Rightarrow> (Inl x, w5)
                           | Inr tot \<Rightarrow> (Inr (), w5\<lparr>fiat_equivalent := tot\<rparr>)))
      else (Inr (), w1))"

definition get_base_currency_from_product_id ::
  "env \<Rightarrow> string \<Rightarrow> bool \<Rightarrow> engine \<Rightarrow> (exn + dec option) \<times> engine" where
  "get_base_currency_from_product_id e pid update w =
     bind_res (if update then update_amounts e w else (Inr (), w))
       (\<lambda>_ w'. (base_currency pid w', w'))"

definition get_quoted_currency_from_product_id ::
  "env \<Rightarrow> string \<Rightarrow> engine \<Rightarrow> (exn + dec option) \<times> engine" where
  "get_quoted_currency_from_product_id e pid w =
     bind_res (update_amounts e w) (\<lambda>_ w'. (quoted_currency pid w', w'))"

section \<open>Signal evaluation\<close>

text \<open>
  \<^verbatim>\<open>indicators[cur_period.name]['adx']\<close>: a dictionary of dictionaries; a missing period or
  key raises KeyError. A period is represented by its name.
\<close>

type_synonym indicators = "string \<Rightarrow> (string \<Rightarrow> dec option) option"

definition indicator :: "indicators \<Rightarrow> string \<Rightarrow> string \<Rightarrow> exn + dec" where
  "indicator ind name key =
     (case ind name of
        None \<Rightarrow> Inl KeyError
      | Some m \<Rightarrow> (case m key of None \<Rightarrow> Inl KeyError | Some d \<Rightarrow> Inr d))"

definition ind_gt :: "indicators \<Rightarrow> string \<Rightarrow> string \<Rightarrow> string \<Rightarrow> exn + bool" where
  "ind_gt ind name a b =
     bind_exn (indicator ind name a) (\<lambda>x. bind_exn (indicator ind name b)
       (\<lambda>y. Inr (valof x > valof y)))"

definition ind_lt :: "indicators \<Rightarrow> string \<Rightarrow> string \<Rightarrow> string \<Rightarrow> exn + bool" where
  "ind_lt ind name a b =
     bind_exn (indicator ind name a) (\<lambda>x. bind_exn (indicator ind name b)
       (\<lambda>y. Inr (valof x < valof y)))"

definition ind_gt_const :: "indicators \<Rightarrow> string \<Rightarrow> string \<Rightarrow> dec \<Rightarrow> exn + bool" where
  "ind_gt_const ind name a c = bind_exn (indicator ind name a) (\<lambda>x. Inr (valof x > valof c))"

definition ind_lt_const :: "indicators \<Rightarrow> string \<Rightarrow> string \<Rightarrow> dec \<Rightarrow> exn + bool" where
  "ind_lt_const ind name a c = bind_exn (indicator ind name a) (\<lambda>x. Inr (valof x < valof c))"

text \<open>
  The loop over \<^verbatim>\<open>period_list\<close> with its two accumulators. Python's \<^verbatim>\<open>and\<close> and
  \<^verbatim>\<open>or\<close> do not evaluate their right operand when the left one decides, so a lookup that
  would raise is skipped then.
\<close>

fun combine_periods :: "string list \<Rightarrow> indicators \<Rightarrow> bool \<times> bool \<Rightarrow> exn + bool \<times> bool" where
  "combine_periods [] ind flags = Inr flags"
| "combine_periods (cur_period # rest) ind (new_buy_flag, new_sell_flag) =
     bind_exn (ind_gt_const ind cur_period ''adx'' (Dec False 25 0)) (\<lambda>trending.
       if trending then
         bind_exn (if new_buy_flag then ind_gt ind cur_period ''obv'' ''obv_ema'' else Inr False)
           (\<lambda>nb.
         bind_exn (if new_sell_flag then Inr True else ind_lt ind cur_period ''obv'' ''obv_ema'')
           (\<lambda>ns. combine_periods rest ind (nb, ns)))
       else
         bind_exn (if new_buy_flag then
                     bind_exn (ind_gt ind cur_period ''stoch_slowk'' ''stoch_slowd'')
                       (\<lambda>above. if above
                          then ind_lt_const ind cur_period ''stoch_slowk'' (Dec False 500 (- 1))
                          else Inr False)
                   else Inr False)
           (\<lambda>nb.
         bind_exn (if new_sell_flag then Inr True else
                     bind_exn (ind_lt ind cur_period ''stoch_slowk'' ''stoch_slowd'')
                       (\<lambda>below. if below then Inr True
                          else ind_gt_const ind cur_period ''stoch_slowk'' (Dec False 500 (- 1))))
           (\<lambda>ns. combine_periods rest ind (nb, ns))))"

text \<open>
  The gate for the pairs quoted in BTC. A product that is not in the list is
  \<^verbatim>\<open>None\<close>, and reading its \<^verbatim>\<open>buy_flag\<close> raises AttributeError.
\<close>

definition flag_of :: "engine \<Rightarrow> nat option \<Rightarrow> exn + bool" where
  "flag_of w r = (case r of None \<Rightarrow> Inl AttributeError | Some j \<Rightarrow> Inr (buy_flag (products w ! j)))"

definition cross_pair_gate :: "string \<Rightarrow> bool \<times> bool \<Rightarrow> engine \<Rightarrow> exn + bool \<times> bool" where
  "cross_pair_gate pid flags w =
     (if pid = ''LTC-BTC'' \<or> pid = ''ETH-BTC'' then
        (let ltc_or_eth_fiat_product =
               get_product_by_product_id w (take 3 pid @ ''-'' @ fiat_currency w);
             btc_fiat_product = get_product_by_product_id w (''BTC-'' @ fiat_currency w)
         in bind_exn (if fst flags then flag_of w ltc_or_eth_fiat_product else Inr False) (\<lambda>nb.
            bind_exn (if snd flags then flag_of w btc_fiat_product else Inr False) (\<lambda>ns.
            Inr (nb, ns))))
      else Inr flags)"

definition signals :: "string \<Rightarrow> string list \<Rightarrow> indicators \<Rightarrow> engine \<Rightarrow> exn + bool \<times> bool" where
  "signals pid period_list ind w =
     bind_exn (combine_periods period_list ind (True, False)) (\<lambda>flags. cross_pair_gate pid flags w)"

text \<open>
  \<^verbatim>\<open>bid = product.order_book.get_ask() - Decimal(product.quote_increment)\<close> followed by
  \<^verbatim>\<open>amount = self.round_coin(Decimal(amount) / Decimal(bid))\<close>: the two lines that
  \<^verbatim>\<open>place_buy\<close> (twice) and \<^verbatim>\<open>determine_trades\<close> share.
\<close>

definition price_and_size ::
  "env \<Rightarrow> nat \<Rightarrow> dec option \<Rightarrow> engine \<Rightarrow> (exn + dec \<times> dec) \<times> engine" where
  "price_and_size e i amount w =
     (let ask = get_ask e (tick w) i; w1 = next_tick w in
      (bind_exn (dec_sub ask (quote_increment (products w1 ! i))) (\<lambda>bid.
       bind_exn (need_dec amount) (\<lambda>a.
       bind_exn (dec_div a bid) (\<lambda>q.
       bind_exn (round_coin q) (\<lambda>size. Inr (bid, size))))), w1))"

definition start_thread :: "side \<Rightarrow> nat \<Rightarrow> engine \<Rightarrow> engine" where
  "start_thread s i w =
     (upd_product i (\<lambda>p. p\<lparr>order_thread := Some s\<rparr>) w)\<lparr>calls := calls w @ [StartThread s i]\<rparr>"

text \<open>
  A worker thread is started, not run: what \<^verbatim>\<open>buy\<close> and \<^verbatim>\<open>sell\<close> do in it is
  modelled below, on their own. The three branches of the transition at the end of
  \<^verbatim>\<open>determine_trades\<close> are \<open>buy_signal\<close>, \<open>sell_signal\<close> and the clearing of both flags.
\<close>

definition switch_signal :: "env \<Rightarrow> nat \<Rightarrow> bool \<Rightarrow> engine \<Rightarrow> engine" where
  "switch_signal e i opposite w =
     (if opposite
      then upd_product i (\<lambda>p. p\<lparr>last_signal_switch := time_time e (tick w)\<rparr>) (next_tick w)
      else w)"

definition buy_signal :: "env \<Rightarrow> string \<Rightarrow> nat \<Rightarrow> engine \<Rightarrow> (exn + unit) \<times> engine" where
  "buy_signal e pid i w =
     (let w1 = switch_signal e i (sell_flag (products w ! i)) w;
          w2 = upd_product i (\<lambda>p. p\<lparr>sell_flag := False, buy_flag := True\<rparr>) w1
      in bind_res (get_quoted_currency_from_product_id e pid w2) (\<lambda>amount w3.
         bind_res (price_and_size e i amount w3) (\<lambda>(bid, amount) w4.
         (Inr (), if valof amount \<ge> valof (min_size (products w4 ! i)) \<and>
                     \<not> order_in_progress (products w4 ! i)
                  then start_thread Buy i w4 else w4))))"

definition sell_signal :: "env \<Rightarrow> nat \<Rightarrow> dec option \<Rightarrow> engine \<Rightarrow> (exn + unit) \<times> engine" where
  "sell_signal e i amount_of_coin w =
     (let w1 = switch_signal e i (buy_flag (products w ! i)) w;
          w2 = upd_product i (\<lambda>p. p\<lparr>buy_flag := False, sell_flag := True\<rparr>) w1
      in bind_res (lift (need_dec amount_of_coin) w2) (\<lambda>coin w3.
         (Inr (), if valof coin \<ge> valof (min_size (products w3 ! i)) \<and>
                     \<not> order_in_progress (products w3 ! i)
                  then start_thread Sell i w3 else w3)))"

definition determine_trades ::
  "env \<Rightarrow> string \<Rightarrow> string list \<Rightarrow> indicators \<Rightarrow> engine \<Rightarrow> (exn + unit) \<times> engine" where
  "determine_trades e pid period_list ind w0 =
     bind_res (update_amounts e w0) (\<lambda>_ w.
     if is_live w then
       bind_res (get_base_currency_from_product_id e pid True w) (\<lambda>amount_of_coin w.
       bind_res (lift (signals pid period_list ind w) w) (\<lambda>(new_buy_flag, new_sell_flag) w.
       case get_product_by_product_id w pid of
         None \<Rightarrow> (Inl AttributeError, w)
       | Some i \<Rightarrow>
           if new_buy_flag then buy_signal e pid i w
           else if new_sell_flag then sell_signal e i amount_of_coin w
           else (Inr (), upd_product i (\<lambda>p. p\<lparr>buy_flag := False, sell_flag := False\<rparr>) w)))
     else (Inr (), w))"

section \<open>Placing limit orders\<close>

definition call_exchange :: "event \<Rightarrow> exn + 'a \<Rightarrow> engine \<Rightarrow> (exn + 'a) \<times> engine" where
  "call_exchange c reply w = (reply, record_call c w)"

definition done_order :: order where
  "done_order = \<lparr>order_id = None, status = Some ''done'', price = None, message = None\<rparr>"

definition keep_open :: "nat \<Rightarrow> order \<Rightarrow> engine \<Rightarrow> engine" where
  "keep_open i ret w =
     (if status ret = Some ''pending'' \<or> status ret = Some ''open''
      then upd_product i (\<lambda>p. p\<lparr>open_orders := open_orders p @ [ret]\<rparr>) w else w)"

text \<open>
  \<^verbatim>\<open>place_buy\<close>. \<open>partial\<close> is \<^verbatim>\<open>Decimal(partial)\<close>: \<^verbatim>\<open>'1.0'\<close> is \<open>Dec False 10 (- 1)\<close>
  and \<^verbatim>\<open>'0.5'\<close> is \<open>Dec False 5 (- 1)\<close>.
\<close>

definition place_buy :: "env \<Rightarrow> nat \<Rightarrow> dec \<Rightarrow> engine \<Rightarrow> (exn + order) \<times> engine" where
  "place_buy e i partial w0 =
     bind_res (get_quoted_currency_from_product_id e (product_id (products w0 ! i)) w0)
       (\<lambda>quoted w1.
     bind_res (lift (bind_exn (need_dec quoted) (\<lambda>q. dec_mul q partial)) w1) (\<lambda>amount w2.
     bind_res (price_and_size e i (Some amount) w2) (\<lambda>(bid, amount) w3.
     bind_res (if valof amount < valof (min_size (products w3 ! i))
               then bind_res
                      (get_quoted_currency_from_product_id e (product_id (products w3 ! i)) w3)
                      (\<lambda>quoted w4. price_and_size e i quoted w4)
               else (Inr (bid, amount), w3)) (\<lambda>(bid, amount) w5.
     if valof amount \<ge> valof (min_size (products w5 ! i)) then
       bind_res (call_exchange
                   (PlaceLimitOrder (product_id (products w5 ! i)) Buy amount bid True)
                   (place_limit_order e (tick w5)) w5)
         (\<lambda>ret w6. (Inr ret, keep_open i ret w6))
     else (Inr done_order, w5)))))"

definition place_sell :: "env \<Rightarrow> nat \<Rightarrow> dec \<Rightarrow> engine \<Rightarrow> (exn + order) \<times> engine" where
  "place_sell e i partial w0 =
     bind_res (get_base_currency_from_product_id e (product_id (products w0 ! i)) True w0)
       (\<lambda>base w1.
     bind_res (lift (bind_exn (need_dec base) (\<lambda>b. bind_exn (dec_mul b partial) round_coin)) w1)
       (\<lambda>amount w2.
     bind_res (if valof amount < valof (min_size (products w2 ! i))
               then get_base_currency_from_product_id e (product_id (products w2 ! i)) True w2
               else (Inr (Some amount), w2)) (\<lambda>amount w3.
     bind_res (lift (dec_add (get_bid e (tick w3) i) (quote_increment (products w3 ! i)))
                 (next_tick w3)) (\<lambda>ask w4.
     bind_res (lift (need_dec amount) w4) (\<lambda>amount w5.
     if valof amount \<ge> valof (min_size (products w5 ! i)) then
       bind_res (call_exchange
                   (PlaceLimitOrder (product_id (products w5 ! i)) Sell amount ask True)
                   (place_limit_order e (tick w5)) w5)
         (\<lambda>ret w6. (Inr ret, keep_open i ret w6))
     else (Inr done_order, w5))))))"

section \<open>The chase\<close>

text \<open>
  The local variables of \<^verbatim>\<open>buy\<close> and \<^verbatim>\<open>sell\<close>: \<^verbatim>\<open>ret\<close>, \<^verbatim>\<open>bid\<close> or \<^verbatim>\<open>ask\<close>,
  \<^verbatim>\<open>amount\<close> and \<^verbatim>\<open>last_order_update\<close>. One pass through the loop body either goes on
  with new variables or executes \<^verbatim>\<open>return\<close>.
\<close>

record chase_vars =
  v_ret :: order
  v_price :: "dec option"
  v_amount :: "dec option"
  v_last_order_update :: rat

datatype 'a step = Continue 'a | Return

datatype flow = Normal | Returned

text \<open>
  \<^verbatim>\<open>time.sleep(0.01)\<close>: the point at which the writes of the other threads to the products
  (flags cleared by the signal evaluation or by \<^verbatim>\<open>close\<close>, open orders replaced by
  \<^verbatim>\<open>update_orders\<close>) become visible to the chase.
\<close>

definition sleep :: "env \<Rightarrow> engine \<Rightarrow> engine" where
  "sleep e w =
     w\<lparr>products := map (\<lambda>(j, p). other_threads e (tick w) j p) (enumerate 0 (products w)),
       tick := Suc (tick w)\<rparr>"

text \<open>The slippage tests of lines 141 and 201.\<close>

definition buy_slippage :: "env \<Rightarrow> nat \<Rightarrow> dec \<Rightarrow> engine \<Rightarrow> (exn + bool) \<times> engine" where
  "buy_slippage e i starting_price w =
     (bind_exn (dec_sub (get_ask e (tick w) i) (quote_increment (products w ! i))) (\<lambda>a.
      bind_exn (dec_div a starting_price) (\<lambda>b.
      bind_exn (dec_sub b (Dec False 10 (- 1))) (\<lambda>c.
      bind_exn (dec_mul c (Dec False 1000 (- 1))) (\<lambda>d.
      Inr (valof d > valof (max_slippage w)))))), next_tick w)"

definition sell_slippage :: "env \<Rightarrow> nat \<Rightarrow> dec \<Rightarrow> engine \<Rightarrow> (exn + bool) \<times> engine" where
  "sell_slippage e i starting_price w =
     (bind_exn (dec_add (get_bid e (tick w) i) (quote_increment (products w ! i))) (\<lambda>a.
      bind_exn (dec_div a starting_price) (\<lambda>b.
      bind_exn (dec_sub (Dec False 1 0) b) (\<lambda>c.
      bind_exn (dec_mul c (Dec False 1000 (- 1))) (\<lambda>d.
      Inr (valof d > valof (max_slippage w)))))), next_tick w)"

text \<open>The escalation of lines 142 to 145 and 202 to 205, up to the \<^verbatim>\<open>return\<close>.\<close>

definition buy_escalate :: "env \<Rightarrow> nat \<Rightarrow> engine \<Rightarrow> (exn + unit) \<times> engine" where
  "buy_escalate e i w =
     bind_res (call_exchange (CancelAll (product_id (products w ! i))) (cancel_all e (tick w)) w)
       (\<lambda>_ w1.
     bind_res (get_quoted_currency_from_product_id e (product_id (products w1 ! i)) w1)
       (\<lambda>funds w2.
     bind_res (call_exchange (PlaceMarketOrder (product_id (products w2 ! i)) Buy (Funds funds))
                 (place_market_order e (tick w2)) w2)
       (\<lambda>_ w3. (Inr (), upd_product i (\<lambda>p. p\<lparr>order_in_progress := False\<rparr>) w3))))"

definition sell_escalate :: "env \<Rightarrow> nat \<Rightarrow> engine \<Rightarrow> (exn + unit) \<times> engine" where
  "sell_escalate e i w =
     bind_res (call_exchange (CancelAll (product_id (products w ! i))) (cancel_all e (tick w)) w)
       (\<lambda>_ w1.
     bind_res (get_base_currency_from_product_id e (product_id (products w1 ! i)) True w1)
       (\<lambda>size w2.
     bind_res (call_exchange (PlaceMarketOrder (product_id (products w2 ! i)) Sell (Size size))
                 (place_market_order e (tick w2)) w2)
       (\<lambda>_ w3. (Inr (), upd_product i (\<lambda>p. p\<lparr>order_in_progress := False\<rparr>) w3))))"

definition needs_new_order :: "order \<Rightarrow> bool" where
  "needs_new_order ret \<longleftrightarrow>
     status ret = Some ''rejected'' \<or> status ret = Some ''done'' \<or> message ret = Some ''NotFound''"

fun cancel_others :: "env \<Rightarrow> string option \<Rightarrow> order list \<Rightarrow> engine \<Rightarrow> (exn + unit) \<times> engine" where
  "cancel_others e keep [] w = (Inr (), w)"
| "cancel_others e keep (ord # ords) w =
     (if order_id ord \<noteq> keep then
        bind_res (call_exchange (CancelOrder (order_id ord)) (cancel_order e (tick w)) w)
          (\<lambda>_ w1. cancel_others e keep ords w1)
      else cancel_others e keep ords w)"

text \<open>Lines 146 to 157 and 206 to 217: a new order when the last one is gone or stale.\<close>

definition buy_reprice :: "env \<Rightarrow> nat \<Rightarrow> chase_vars \<Rightarrow> engine \<Rightarrow> (exn + chase_vars) \<times> engine" where
  "buy_reprice e i v w =
     (if needs_new_order (v_ret v) then
        bind_res (place_buy e i (Dec False 5 (- 1)) w)
          (\<lambda>ret w1. (Inr (v\<lparr>v_ret := ret, v_price := price ret\<rparr>), w1))
      else
        bind_res (case v_price v of
                    None \<Rightarrow> (Inr True, w)
                  | Some bid \<Rightarrow>
                      (bind_exn (dec_sub (get_ask e (tick w) i) (quote_increment (products w ! i)))
                         (\<lambda>best. Inr (valof bid < valof best)), next_tick w))
          (\<lambda>stale w1.
             if stale then
               bind_res (place_buy e i (if open_orders (products w1 ! i) \<noteq> []
                                        then Dec False 10 (- 1) else Dec False 5 (- 1)) w1)
                 (\<lambda>ret w2.
               bind_res (cancel_others e (order_id ret) (open_orders (products w2 ! i)) w2)
                 (\<lambda>_ w3. (Inr (v\<lparr>v_ret := ret, v_price := price ret\<rparr>), w3)))
             else (Inr v, w1)))"

definition sell_reprice :: "env \<Rightarrow> nat \<Rightarrow> chase_vars \<Rightarrow> engine \<Rightarrow> (exn + chase_vars) \<times> engine" where
  "sell_reprice e i v w =
     (if needs_new_order (v_ret v) then
        bind_res (place_sell e i (Dec False 5 (- 1)) w)
          (\<lambda>ret w1. (Inr (v\<lparr>v_ret := ret, v_price := price ret\<rparr>), w1))
      else
        bind_res (case v_price v of
                    None \<Rightarrow> (Inr True, w)
                  | Some ask \<Rightarrow>
                      (bind_exn (dec_add (get_bid e (tick w) i) (quote_increment (products w ! i)))
                         (\<lambda>best. Inr (valof ask > valof best)), next_tick w))
          (\<lambda>stale w1.
             if stale then
               bind_res (place_sell e i (if open_orders (products w1 ! i) \<noteq> []
                                         then Dec False 10 (- 1) else Dec False 5 (- 1)) w1)
                 (\<lambda>ret w2.
               bind_res (cancel_others e (order_id ret) (open_orders (products w2 ! i)) w2)
                 (\<lambda>_ w3. (Inr (v\<lparr>v_ret := ret, v_price := price ret\<rparr>), w3)))
             else (Inr v, w1)))"

text \<open>
  Lines 158 to 164 and 218 to 224: the status query, at most once a second, for an order with
  a non-empty id. Only ValueError is caught. \<^verbatim>\<open>buy\<close> sets \<^verbatim>\<open>last_order_update\<close> inside the
  \<^verbatim>\<open>try\<close>, \<^verbatim>\<open>sell\<close> after it.
\<close>

definition buy_refresh :: "env \<Rightarrow> chase_vars \<Rightarrow> engine \<Rightarrow> (exn + chase_vars) \<times> engine" where
  "buy_refresh e v w =
     (case order_id (v_ret v) of
        None \<Rightarrow> (Inr v, w)
      | Some oid \<Rightarrow>
          if oid = [] then (Inr v, w)
          else if time_time e (tick w) - v_last_order_update v \<ge> 1 then
            (case get_order e (Suc (tick w)) of
               Inl x \<Rightarrow> (if x = ValueError then Inr v else Inl x,
                          record_call (GetOrder oid) (next_tick w))
             | Inr ret \<Rightarrow>
                 (Inr (v\<lparr>v_ret := ret,
                         v_last_order_update := time_time e (Suc (Suc (tick w)))\<rparr>),
                  next_tick (record_call (GetOrder oid) (next_tick w))))
          else (Inr v, next_tick w))"

definition sell_refresh :: "env \<Rightarrow> chase_vars \<Rightarrow> engine \<Rightarrow> (exn + chase_vars) \<times> engine" where
  "sell_refresh e v w =
     (case order_id (v_ret v) of
        None \<Rightarrow> (Inr v, w)
      | Some oid \<Rightarrow>
          if oid = [] then (Inr v, w)
          else if time_time e (tick w) - v_last_order_update v \<ge> 1 then
            (case get_order e (Suc (tick w)) of
               Inl x \<Rightarrow>
                 if x = ValueError then
                   (Inr (v\<lparr>v_last_order_update := time_time e (Suc (Suc (tick w)))\<rparr>),
                    next_tick (record_call (GetOrder oid) (next_tick w)))
                 else (Inl x, record_call (GetOrder oid) (next_tick w))
             | Inr ret \<Rightarrow>
                 (Inr (v\<lparr>v_ret := ret,
                         v_last_order_update := time_time e (Suc (Suc (tick w)))\<rparr>),
                  next_tick (record_call (GetOrder oid) (next_tick w))))
          else (Inr v, next_tick w))"

text \<open>The loop conditions of lines 140 and 200, and the loop bodies.\<close>

definition buy_cond :: "nat \<Rightarrow> chase_vars \<Rightarrow> engine \<Rightarrow> exn + bool" where
  "buy_cond i v w =
     (if buy_flag (products w ! i) then
        bind_exn (need_dec (v_amount v))
          (\<lambda>a. Inr (valof a \<ge> valof (min_size (products w ! i)) \<or> open_orders (products w ! i) \<noteq> []))
      else Inr False)"

definition sell_cond :: "nat \<Rightarrow> chase_vars \<Rightarrow> engine \<Rightarrow> exn + bool" where
  "sell_cond i v w =
     (if sell_flag (products w ! i) then
        bind_exn (need_dec (v_amount v))
          (\<lambda>a. Inr (valof a \<ge> valof (min_size (products w ! i)) \<or> open_orders (products w ! i) \<noteq> []))
      else Inr False)"

definition buy_body ::
  "env \<Rightarrow> nat \<Rightarrow> dec \<Rightarrow> chase_vars \<Rightarrow> engine \<Rightarrow> (exn + chase_vars step) \<times> engine" where
  "buy_body e i starting_price v w =
     bind_res (buy_slippage e i starting_price w) (\<lambda>exceeded w1.
       if exceeded then bind_res (buy_escalate e i w1) (\<lambda>_ w2. (Inr Return, w2))
       else
         bind_res (buy_reprice e i v w1) (\<lambda>v1 w2.
         bind_res (buy_refresh e v1 w2) (\<lambda>v2 w3.
         bind_res (get_quoted_currency_from_product_id e (product_id (products w3 ! i)) w3)
           (\<lambda>amount w4. (Inr (Continue (v2\<lparr>v_amount := amount\<rparr>)), sleep e w4)))))"

definition sell_body ::
  "env \<Rightarrow> nat \<Rightarrow> dec \<Rightarrow> chase_vars \<Rightarrow> engine \<Rightarrow> (exn + chase_vars step) \<times> engine" where
  "sell_body e i starting_price v w =
     bind_res (sell_slippage e i starting_price w) (\<lambda>exceeded w1.
       if exceeded then bind_res (sell_escalate e i w1) (\<lambda>_ w2. (Inr Return, w2))
       else
         bind_res (sell_reprice e i v w1) (\<lambda>v1 w2.
         bind_res (sell_refresh e v1 w2) (\<lambda>v2 w3.
         bind_res (get_base_currency_from_product_id e (product_id (products w3 ! i)) True w3)
           (\<lambda>amount w4. (Inr (Continue (v2\<lparr>v_amount := amount\<rparr>)), sleep e w4)))))"

text \<open>
  The \<^verbatim>\<open>while\<close> loops. Nothing bounds the number of iterations, so the loop takes fuel:
  \<open>None\<close> is a chase that is still running after that many tests of the loop condition.
\<close>

fun buy_loop ::
  "env \<Rightarrow> nat \<Rightarrow> nat \<Rightarrow> dec \<Rightarrow> chase_vars \<Rightarrow> engine \<Rightarrow> ((exn + flow) \<times> engine) option" where
  "buy_loop e 0 i starting_price v w = None"
| "buy_loop e (Suc n) i starting_price v w =
     (case buy_cond i v w of
        Inl x \<Rightarrow> Some (Inl x, w)
      | Inr go \<Rightarrow>
          if go then
            (case buy_body e i starting_price v w of
               (Inl x, w1) \<Rightarrow> Some (Inl x, w1)
             | (Inr Return, w1) \<Rightarrow> Some (Inr Returned, w1)
             | (Inr (Continue v1), w1) \<Rightarrow> buy_loop e n i starting_price v1 w1)
          else Some (Inr Normal, w))"

fun sell_loop ::
  "env \<Rightarrow> nat \<Rightarrow> nat \<Rightarrow> dec \<Rightarrow> chase_vars \<Rightarrow> engine \<Rightarrow> ((exn + flow) \<times> engine) option" where
  "sell_loop e 0 i starting_price v w = None"
| "sell_loop e (Suc n) i starting_price v w =
     (case sell_cond i v w of
        Inl x \<Rightarrow> Some (Inl x, w)
      | Inr go \<Rightarrow>
          if go then
            (case sell_body e i starting_price v w of
               (Inl x, w1) \<Rightarrow> Some (Inl x, w1)
             | (Inr Return, w1) \<Rightarrow> Some (Inr Returned, w1)
             | (Inr (Continue v1), w1) \<Rightarrow> sell_loop e n i starting_price v1 w1)
          else Some (Inr Normal, w))"

text \<open>The body of the \<^verbatim>\<open>try\<close> statement: lines 137 to 168 and 197 to 228.\<close>

definition buy_try ::
  "env \<Rightarrow> nat \<Rightarrow> nat \<Rightarrow> dec \<Rightarrow> engine \<Rightarrow> ((exn + flow) \<times> engine) option" where
  "buy_try e n i starting_price w =
     (case place_buy e i (Dec False 5 (- 1)) w of
        (Inl x, w1) \<Rightarrow> Some (Inl x, w1)
      | (Inr ret, w1) \<Rightarrow>
          (case get_quoted_currency_from_product_id e (product_id (products w1 ! i)) w1 of
             (Inl x, w2) \<Rightarrow> Some (Inl x, w2)
           | (Inr amount, w2) \<Rightarrow>
               (case buy_loop e n i starting_price
                       \<lparr>v_ret = ret, v_price = price ret, v_amount = amount,
                        v_last_order_update = 0\<rparr> w2 of
                  None \<Rightarrow> None
                | Some (Inl x, w3) \<Rightarrow> Some (Inl x, w3)
                | Some (Inr Returned, w3) \<Rightarrow> Some (Inr Returned, w3)
                | Some (Inr Normal, w3) \<Rightarrow>
                    Some (bind_res (call_exchange (CancelAll (product_id (products w3 ! i)))
                                      (cancel_all e (tick w3)) w3) (\<lambda>_ w4.
                          bind_res (get_quoted_currency_from_product_id e
                                      (product_id (products w4 ! i)) w4)
                            (\<lambda>_ w5. (Inr Normal, w5)))))))"

definition sell_try ::
  "env \<Rightarrow> nat \<Rightarrow> nat \<Rightarrow> dec \<Rightarrow> engine \<Rightarrow> ((exn + flow) \<times> engine) option" where
  "sell_try e n i starting_price w =
     (case place_sell e i (Dec False 5 (- 1)) w of
        (Inl x, w1) \<Rightarrow> Some (Inl x, w1)
      | (Inr ret, w1) \<Rightarrow>
          (case get_base_currency_from_product_id e (product_id (products w1 ! i)) True w1 of
             (Inl x, w2) \<Rightarrow> Some (Inl x, w2)
           | (Inr amount, w2) \<Rightarrow>
               (case sell_loop e n i starting_price
                       \<lparr>v_ret = ret, v_price = price ret, v_amount = amount,
                        v_last_order_update = 0\<rparr> w2 of
                  None \<Rightarrow> None
                | Some (Inl x, w3) \<Rightarrow> Some (Inl x, w3)
                | Some (Inr Returned, w3) \<Rightarrow> Some (Inr Returned, w3)
                | Some (Inr Normal, w3) \<Rightarrow>
                    Some (bind_res (call_exchange (CancelAll (product_id (products w3 ! i)))
                                      (cancel_all e (tick w3)) w3) (\<lambda>_ w4.
                          bind_res (get_base_currency_from_product_id e
                                      (product_id (products w4 ! i)) True w4)
                            (\<lambda>_ w5. (Inr Normal, w5)))))))"

text \<open>
  What follows the \<^verbatim>\<open>try\<close> statement: the handler of \<^verbatim>\<open>except Exception\<close> clears
  \<^verbatim>\<open>order_in_progress\<close> (the logging is left out), and in both cases lines 172 and 173 (232
  and 233) cancel all orders and clear the flag. An exception of that last
  \<^verbatim>\<open>cancel_all\<close> is not caught.
\<close>

definition finish_chase :: "env \<Rightarrow> nat \<Rightarrow> exn + flow \<Rightarrow> engine \<Rightarrow> (exn + unit) \<times> engine" where
  "finish_chase e i r w =
     (case r of
        Inr Returned \<Rightarrow> (Inr (), w)
      | _ \<Rightarrow>
          (let w1 = (case r of Inl _ \<Rightarrow> upd_product i (\<lambda>p. p\<lparr>order_in_progress := False\<rparr>) w
                     | Inr _ \<Rightarrow> w)
           in bind_res (call_exchange (CancelAll (product_id (products w1 ! i)))
                          (cancel_all e (tick w1)) w1)
                (\<lambda>_ w2. (Inr (), upd_product i (\<lambda>p. p\<lparr>order_in_progress := False\<rparr>) w2))))"

text \<open>
  \<^verbatim>\<open>buy\<close> and \<^verbatim>\<open>sell\<close>, as the worker thread runs them on the product at position \<open>i\<close>.
  The starting price is computed before the \<^verbatim>\<open>try\<close>, so an exception there propagates.
\<close>

definition buy :: "env \<Rightarrow> nat \<Rightarrow> nat \<Rightarrow> engine \<Rightarrow> ((exn + unit) \<times> engine) option" where
  "buy e n i w0 =
     (let w1 = upd_product i (\<lambda>p. p\<lparr>order_in_progress := True\<rparr>) w0 in
      case dec_sub (get_ask e (tick w1) i) (quote_increment (products w1 ! i)) of
        Inl x \<Rightarrow> Some (Inl x, next_tick w1)
      | Inr starting_price \<Rightarrow>
          (case buy_try e n i starting_price (next_tick w1) of
             None \<Rightarrow> None
           | Some (r, w2) \<Rightarrow> Some (finish_chase e i r w2)))"

definition sell :: "env \<Rightarrow> nat \<Rightarrow> nat \<Rightarrow> engine \<Rightarrow> ((exn + unit) \<times> engine) option" where
  "sell e n i w0 =
     (let w1 = upd_product i (\<lambda>p. p\<lparr>order_in_progress := True\<rparr>) w0 in
      case dec_add (get_bid e (tick w1) i) (quote_increment (products w1 ! i)) of
        Inl x \<Rightarrow> Some (Inl x, next_tick w1)
      | Inr starting_price \<Rightarrow>
          (case sell_try e n i starting_price (next_tick w1) of
             None \<Rightarrow> None
           | Some (r, w2) \<Rightarrow> Some (finish_chase e i r w2)))"

section \<open>Notions used in the statements\<close>

text \<open>
  The state in which a chase returns after an escalation: the market order is in the trace and
  \<^verbatim>\<open>order_in_progress\<close> is cleared.
\<close>

definition escalated :: "side \<Rightarrow> nat \<Rightarrow> market_amount \<Rightarrow> engine \<Rightarrow> engine" where
  "escalated s i amt w =
     upd_product i (\<lambda>p. p\<lparr>order_in_progress := False\<rparr>)
       (record_call (PlaceMarketOrder (product_id (products w ! i)) s amt) w)"

text \<open>
  \<open>refreshed w w'\<close>: between \<open>w\<close> and \<open>w'\<close> the engine has at most refreshed its balances;
  products, configuration and trace are as before, but for \<^verbatim>\<open>get_accounts\<close> calls.
\<close>

definition refreshed :: "engine \<Rightarrow> engine \<Rightarrow> bool" where
  "refreshed w w' \<longleftrightarrow>
     products w' = products w \<and> is_live w' = is_live w \<and> fiat_currency w' = fiat_currency w \<and>
     max_slippage w' = max_slippage w \<and> tick w \<le> tick w' \<and>
     (\<exists>xs. calls w' = calls w @ xs \<and> set xs \<subseteq> {GetAccounts})"

text \<open>
  The conditions of one period in the words of the specification, on the values of its
  indicators: trending (ADX above 25) compares OBV with its moving average, ranging compares
  the stochastic %K with %D and with the midpoint 50.
\<close>

definition has_indicators :: "indicators \<Rightarrow> string \<Rightarrow> bool" where
  "has_indicators ind p =
     (case ind p of
        None \<Rightarrow> False
      | Some m \<Rightarrow> m ''adx'' \<noteq> None \<and> m ''obv'' \<noteq> None \<and> m ''obv_ema'' \<noteq> None \<and>
                 m ''stoch_slowk'' \<noteq> None \<and> m ''stoch_slowd'' \<noteq> None)"

definition ival :: "indicators \<Rightarrow> string \<Rightarrow> string \<Rightarrow> rat" where
  "ival ind p key = (case indicator ind p key of Inl _ \<Rightarrow> 0 | Inr d \<Rightarrow> valof d)"

definition period_buy :: "indicators \<Rightarrow> string \<Rightarrow> bool" where
  "period_buy ind p =
     (if ival ind p ''adx'' > 25 then ival ind p ''obv'' > ival ind p ''obv_ema''
      else ival ind p ''stoch_slowk'' > ival ind p ''stoch_slowd'' \<and> ival ind p ''stoch_slowk'' < 50)"

definition period_sell :: "indicators \<Rightarrow> string \<Rightarrow> bool" where
  "period_sell ind p =
     (if ival ind p ''adx'' > 25 then ival ind p ''obv'' < ival ind p ''obv_ema''
      else ival ind p ''stoch_slowk'' < ival ind p ''stoch_slowd'' \<or> ival ind p ''stoch_slowk'' > 50)"

definition example_indicators :: indicators where
  "example_indicators =
     (\<lambda>p. if p = ''P1'' then
             Some (\<lambda>k. if k = ''adx'' then Some (Dec False 30 0)
                        else if k = ''obv'' then Some (Dec False 10 0)
                        else if k = ''obv_ema'' then Some (Dec False 5 0)
                        else if k = ''stoch_slowk'' then Some (Dec False 60 0)
                        else if k = ''stoch_slowd'' then Some (Dec False 20 0)
                        else None)
           else if p = ''P2'' then
             Some (\<lambda>k. if k = ''adx'' then Some (Dec False 10 0)
                        else if k = ''obv'' then Some (Dec False 1 0)
                        else if k = ''obv_ema'' then Some (Dec False 5 0)
                        else if k = ''stoch_slowk'' then Some (Dec False 40 0)
                        else if k = ''stoch_slowd'' then Some (Dec False 20 0)
                        else None)
           else None)"

section \<open>Concrete instances\<close>

text \<open>
  A product with minimum size 0.001 and quote increment 0.01, an engine in live mode with fiat
  currency USD, 100.00 USD and no coins, and an environment in which the best ask is 50000, the
  best bid 49990, the clock stands still and every call to the exchange returns.
\<close>

definition example_product :: "string \<Rightarrow> bool \<Rightarrow> bool \<Rightarrow> product" where
  "example_product pid bf sf =
     \<lparr>product_id = pid, min_size = Dec False 1 (- 3), quote_increment = Dec False 1 (- 2),
      meta = False, buy_flag = bf, sell_flag = sf, order_in_progress = False, open_orders = [],
      last_signal_switch = 0, order_thread = None\<rparr>"

definition example_engine :: "product list \<Rightarrow> engine" where
  "example_engine ps =
     \<lparr>products = ps, fiat_currency = ''USD'', is_live = True, max_slippage = Dec False 10 (- 2),
      btc = Some (Dec False 0 (- 8)), bch = Some (Dec False 0 (- 8)),
      eth = Some (Dec False 0 (- 8)), ltc = Some (Dec False 0 (- 8)),
      fiat = Some (Dec False 10000 (- 2)), fiat_equivalent = Dec False 10000 (- 2),
      last_balance_update = 0, tick = 0, calls = []\<rparr>"

definition example_order :: order where
  "example_order = \<lparr>order_id = Some ''o1'', status = Some ''open'',
     price = Some (Dec False 4999999 (- 2)), message = None\<rparr>"

definition example_env :: env where
  "example_env =
     \<lparr>get_ask = (\<lambda>t i. Dec False 50000 0), get_bid = (\<lambda>t i. Dec False 49990 0),
      get_current_ticker = (\<lambda>t i. None), time_time = (\<lambda>t. 0),
      get_accounts = (\<lambda>t. Inr NotAList), place_limit_order = (\<lambda>t. Inr example_order),
      place_market_order = (\<lambda>t. Inr ()), cancel_all = (\<lambda>t. Inr ()),
      cancel_order = (\<lambda>t. Inr ()), get_order = (\<lambda>t. Inr example_order),
      other_threads = (\<lambda>t i p. p)\<rparr>"

text \<open>
  The three products of the cross-pair gate: LTC-BTC, its fiat counterpart LTC-USD with the buy
  flag set, and BTC-USD with the buy flag clear.
\<close>

definition gate_engine :: engine where
  "gate_engine = example_engine [example_product ''LTC-BTC'' False False,
     example_product ''LTC-USD'' True False, example_product ''BTC-USD'' False False]"

text \<open>The same three products with the buy flag of LTC-USD clear and that of BTC-USD set.\<close>

definition gate_engine_off :: engine where
  "gate_engine_off = example_engine [example_product ''LTC-BTC'' False False,
     example_product ''LTC-USD'' False False, example_product ''BTC-USD'' True False]"

text \<open>
  The first two statements of \<^verbatim>\<open>determine_trades\<close> in live mode: the balance refresh and the
  read of the base-currency balance.
\<close>

definition read_balances :: "env \<Rightarrow> string \<Rightarrow> engine \<Rightarrow> (exn + dec option) \<times> engine" where
  "read_balances e pid w =
     bind_res (update_amounts e w) (\<lambda>_ w1. get_base_currency_from_product_id e pid True w1)"

text \<open>The example engine in simulated mode, and a clock that makes the balance refresh due.\<close>

definition simulated_engine :: engine where
  "simulated_engine = (example_engine [example_product ''BTC-USD'' False False])\<lparr>is_live := False\<rparr>"

definition late_env :: env where
  "late_env = example_env\<lparr>time_time := (\<lambda>t. 5)\<rparr>"

text \<open>
  An engine whose only product BTC-USD is in the sell state, one where it is flat, and a clock
  that shows half a second, so that no balance refresh is due.
\<close>

definition selling_engine :: engine where
  "selling_engine = example_engine [example_product ''BTC-USD'' False True]"

definition flat_engine :: engine where
  "flat_engine = example_engine [example_product ''BTC-USD'' False False]"

definition half_env :: env where
  "half_env = example_env\<lparr>time_time := (\<lambda>t. 1 / 2)\<rparr>"

text \<open>
  A chase in progress: the product BTC-USD with the buy flag (sell flag) set, the variables of
  a chase that started at an ask of 50000 (a bid of 49990) and holds one order, and a market
  that has since moved against it: the ask is now 60000 and the bid 40000.
\<close>

definition buying_engine :: engine where
  "buying_engine = example_engine [example_product ''BTC-USD'' True False]"

definition example_vars :: chase_vars where
  "example_vars = \<lparr>v_ret = example_order, v_price = Some (Dec False 4999999 (- 2)),
     v_amount = Some (Dec False 10000 (- 2)), v_last_order_update = 0\<rparr>"

definition surge_env :: env where
  "surge_env = half_env\<lparr>get_ask := (\<lambda>t i. Dec False 60000 0),
     get_bid := (\<lambda>t i. Dec False 40000 0)\<rparr>"

text \<open>The same market with an exchange whose \<^verbatim>\<open>cancel_all\<close> raises.\<close>

definition cancel_fails_env :: env where
  "cancel_fails_env = surge_env\<lparr>cancel_all := (\<lambda>t. Inl ExchangeError)\<rparr>"

text \<open>An engine that holds one bitcoin, with BTC-USD in the sell state.\<close>

definition holding_engine :: engine where
  "holding_engine = selling_engine\<lparr>btc := Some (Dec False 100000000 (- 8))\<rparr>"

text \<open>
  An exchange that goes down during a chase: \<^verbatim>\<open>cancel_all\<close> returns up to tick 6 and raises
  from tick 7 on.
\<close>

definition outage_env :: env where
  "outage_env = half_env\<lparr>cancel_all := (\<lambda>t. if t < 7 then Inr () else Inl ExchangeError)\<rparr>"

section \<open>Properties of the decimal operations\<close>

subsection \<open>Digit counts and values\<close>

lemma ndigits_pos: "0 < ndigits n"
  by (subst ndigits.simps) simp

lemma ndigits_upper: "n < 10 ^ ndigits n"
proof (induction n rule: ndigits.induct)
  case (1 n)
  show ?case
  proof (cases "n < 10")
    case True
    then show ?thesis by (subst ndigits.simps) simp
  next
    case False
    with 1 have "n div 10 < 10 ^ ndigits (n div 10)" by simp
    then have "n < 10 * 10 ^ ndigits (n div 10)" by arith
    with False show ?thesis by (subst ndigits.simps) simp
  qed
qed

lemma ndigits_lower: "0 < n \<Longrightarrow> 10 ^ (ndigits n - 1) \<le> n"
proof (induction n rule: ndigits.induct)
  case (1 n)
  show ?case
  proof (cases "n < 10")
    case True
    with 1 show ?thesis by (subst ndigits.simps) simp
  next
    case False
    then have "0 < n div 10" by arith
    with 1 False have "10 ^ (ndigits (n div 10) - 1) \<le> n div 10" by simp
    then have "10 * 10 ^ (ndigits (n div 10) - 1) \<le> n" by arith
    moreover have "ndigits n = Suc (ndigits (n div 10))"
      using False by (subst ndigits.simps) simp
    moreover have "0 < ndigits (n div 10)" by (rule ndigits_pos)
    ultimately show ?thesis
      by (cases "ndigits (n div 10)") simp_all
  qed
qed

lemma valof_zero: "coeff d = 0 \<Longrightarrow> valof d = 0"
  by (simp add: valof_def)

lemma valof_nonneg_sign: "0 \<le> valof d \<Longrightarrow> 0 < coeff d \<Longrightarrow> \<not> dsign d"
proof
  assume neg: "dsign d" and nn: "0 \<le> valof d" and pos: "0 < coeff d"
  have p: "(0::rat) < (if 0 \<le> expo d then 10 ^ nat (expo d) else 1 / 10 ^ nat (- expo d))"
    by simp
  have "(0::rat) < of_nat (coeff d)" using pos by simp
  with p have "(0::rat) < of_nat (coeff d) *
      (if 0 \<le> expo d then 10 ^ nat (expo d) else 1 / 10 ^ nat (- expo d))"
    by (rule mult_pos_pos [rotated])
  then have "valof d < 0" using neg by (simp add: valof_def del: of_nat_0_less_iff)
  with nn show False by simp
qed

lemma valof_ge: "\<not> dsign d \<Longrightarrow> 0 \<le> expo d \<Longrightarrow> valof d = of_nat (coeff d * 10 ^ nat (expo d))"
  by (simp add: valof_def)

lemma valof_lt: "\<not> dsign d \<Longrightarrow> expo d < 0 \<Longrightarrow> valof d = of_nat (coeff d) / of_nat (10 ^ nat (- expo d))"
  by (simp add: valof_def)

lemma small_adjusted:
  assumes pos: "0 < coeff d" and sg: "\<not> dsign d" and lt: "valof d < 10 ^ n"
  shows "adjusted d < int n"
proof -
  let ?c = "coeff d" and ?x = "expo d"
  have lo: "10 ^ (ndigits ?c - 1) \<le> ?c" using pos by (rule ndigits_lower)
  show ?thesis
  proof (cases "0 \<le> ?x")
    case True
    have "(of_nat (?c * 10 ^ nat ?x) :: rat) < of_nat (10 ^ n)"
      using lt valof_ge [OF sg True] by simp
    then have "?c * 10 ^ nat ?x < 10 ^ n" by (simp only: of_nat_less_iff)
    moreover have "10 ^ (ndigits ?c - 1) * 10 ^ nat ?x \<le> ?c * (10 ^ nat ?x :: nat)"
      using lo by simp
    ultimately have "10 ^ (ndigits ?c - 1) * 10 ^ nat ?x < (10::nat) ^ n"
      by (rule le_less_trans [rotated])
    then have "(10::nat) ^ (ndigits ?c - 1 + nat ?x) < 10 ^ n"
      by (simp only: power_add)
    then have "ndigits ?c - 1 + nat ?x < n" by simp
    then show ?thesis using True ndigits_pos [of ?c] by (simp add: adjusted_def)
  next
    case False
    then have neg: "?x < 0" by simp
    have "(of_nat ?c :: rat) / of_nat (10 ^ nat (- ?x)) < of_nat (10 ^ n)"
      using lt valof_lt [OF sg neg] by simp
    then have "(of_nat ?c :: rat) < of_nat (10 ^ n) * of_nat (10 ^ nat (- ?x))"
      by (simp add: pos_divide_less_eq)
    then have "(of_nat ?c :: rat) < of_nat (10 ^ n * 10 ^ nat (- ?x))"
      by (simp only: of_nat_mult)
    then have "?c < 10 ^ n * 10 ^ nat (- ?x)" by (simp only: of_nat_less_iff)
    with lo have "10 ^ (ndigits ?c - 1) < (10::nat) ^ n * 10 ^ nat (- ?x)"
      by (rule le_less_trans)
    then have "(10::nat) ^ (ndigits ?c - 1) < 10 ^ (n + nat (- ?x))"
      by (simp only: power_add)
    then have "ndigits ?c - 1 < n + nat (- ?x)" by simp
    then show ?thesis using neg ndigits_pos [of ?c] by (simp add: adjusted_def)
  qed
qed

subsection \<open>Truncation by \<^verbatim>\<open>quantize\<close> with ROUND_DOWN\<close>

lemma quantize_down_trunc:
  assumes nn: "0 \<le> valof d" and lt: "valof d < 10 ^ (prec - k)" and k: "k \<le> prec"
  shows "\<exists>r. quantize_down (- int k) d = Inr r \<and> expo r = - int k \<and> \<not> (0 < coeff r \<and> dsign r) \<and>
            valof r = of_int \<lfloor>valof d * 10 ^ k\<rfloor> / 10 ^ k"
proof (cases "coeff d = 0")
  case True
  then show ?thesis by (simp add: quantize_down_def valof_zero)
next
  case False
  then have pos: "0 < coeff d" by simp
  have sg: "\<not> dsign d" using nn pos by (rule valof_nonneg_sign)
  let ?c = "coeff d" and ?x = "expo d"
  have "adjusted d < int (prec - k)" using pos sg lt by (rule small_adjusted)
  then have fits: "\<not> adjusted d - (- int k) + 1 > int prec" using k by simp
  show ?thesis
  proof (cases "- int k \<le> ?x")
    case True
    have q: "quantize_down (- int k) d = Inr (Dec False (?c * 10 ^ nat (?x + int k)) (- int k))"
      using False fits True sg by (simp add: quantize_down_def)
    have v: "valof d * 10 ^ k = of_nat (?c * 10 ^ nat (?x + int k))"
    proof (cases "0 \<le> ?x")
      case True
      then show ?thesis
        by (simp add: valof_ge [OF sg True] nat_add_distrib power_add)
    next
      case F: False
      then have neg: "?x < 0" by simp
      have "k = nat (- ?x) + nat (?x + int k)" using True neg by simp
      then have "(10::rat) ^ k = 10 ^ nat (- ?x) * 10 ^ nat (?x + int k)"
        by (metis power_add)
      then show ?thesis by (simp add: valof_lt [OF sg neg])
    qed
    have "valof (Dec False (?c * 10 ^ nat (?x + int k)) (- int k)) =
            of_nat (?c * 10 ^ nat (?x + int k)) / 10 ^ k"
      by (simp add: valof_def)
    moreover have "\<lfloor>valof d * 10 ^ k\<rfloor> = int (?c * 10 ^ nat (?x + int k))"
      by (simp only: v floor_of_nat)
    ultimately show ?thesis using q by simp
  next
    case F: False
    then have neg: "?x < 0" by simp
    let ?m = "nat (- int k - ?x)"
    have q: "quantize_down (- int k) d = Inr (Dec False (?c div 10 ^ ?m) (- int k))"
      using False fits F sg by (simp add: quantize_down_def)
    have "nat (- ?x) = k + ?m" using F by simp
    then have "(10::rat) ^ nat (- ?x) = 10 ^ k * 10 ^ ?m" by (metis power_add)
    then have v: "valof d * 10 ^ k = of_nat ?c / of_nat (10 ^ ?m)"
      by (simp add: valof_lt [OF sg neg])
    have "\<lfloor>valof d * 10 ^ k\<rfloor> = int (?c div 10 ^ ?m)"
      by (simp only: v floor_divide_of_nat_eq)
    moreover have "valof (Dec False (?c div 10 ^ ?m) (- int k)) = of_nat (?c div 10 ^ ?m) / 10 ^ k"
      by (simp add: valof_def)
    ultimately show ?thesis using q by simp
  qed
qed


lemma large_adjusted:
  assumes pos: "0 < coeff d" and sg: "\<not> dsign d" and ge: "10 ^ n \<le> valof d"
  shows "int n \<le> adjusted d"
proof -
  let ?c = "coeff d" and ?x = "expo d"
  have up: "?c < 10 ^ ndigits ?c" by (rule ndigits_upper)
  show ?thesis
  proof (cases "0 \<le> ?x")
    case True
    have "(of_nat (10 ^ n) :: rat) \<le> of_nat (?c * 10 ^ nat ?x)"
      using ge valof_ge [OF sg True] by simp
    then have "10 ^ n \<le> ?c * 10 ^ nat ?x" by (simp only: of_nat_le_iff)
    moreover have "?c * (10 ^ nat ?x :: nat) < 10 ^ ndigits ?c * 10 ^ nat ?x"
      using up by simp
    ultimately have "(10::nat) ^ n < 10 ^ ndigits ?c * 10 ^ nat ?x"
      by (rule le_less_trans)
    then have "(10::nat) ^ n < 10 ^ (ndigits ?c + nat ?x)"
      by (simp only: power_add)
    then have "n < ndigits ?c + nat ?x" by simp
    then show ?thesis using True by (simp add: adjusted_def)
  next
    case False
    then have neg: "?x < 0" by simp
    have "(of_nat (10 ^ n) :: rat) \<le> of_nat ?c / of_nat (10 ^ nat (- ?x))"
      using ge valof_lt [OF sg neg] by simp
    then have "(of_nat (10 ^ n) :: rat) * of_nat (10 ^ nat (- ?x)) \<le> of_nat ?c"
      by (simp add: pos_le_divide_eq)
    then have "(of_nat (10 ^ n * 10 ^ nat (- ?x)) :: rat) \<le> of_nat ?c"
      by (simp only: of_nat_mult)
    then have "10 ^ n * 10 ^ nat (- ?x) \<le> ?c" by (simp only: of_nat_le_iff)
    with up have "10 ^ n * 10 ^ nat (- ?x) < (10::nat) ^ ndigits ?c"
      by (rule le_less_trans [rotated])
    then have "(10::nat) ^ (n + nat (- ?x)) < 10 ^ ndigits ?c"
      by (simp only: power_add)
    then have "n + nat (- ?x) < ndigits ?c" by simp
    then show ?thesis using neg by (simp add: adjusted_def)
  qed
qed

lemma quantize_down_raises:
  assumes ge: "10 ^ (prec - k) \<le> valof d" and k: "k \<le> prec"
  shows "quantize_down (- int k) d = Inl InvalidOperation"
proof -
  have "(0::rat) < 10 ^ (prec - k)" by simp
  from this ge have vpos: "0 < valof d" by (rule less_le_trans)
  then have pos: "0 < coeff d" by (cases "coeff d = 0") (simp_all add: valof_zero)
  have sg: "\<not> dsign d" using vpos pos by (simp add: valof_nonneg_sign)
  have "int (prec - k) \<le> adjusted d" using pos sg ge by (rule large_adjusted)
  then have "adjusted d - (- int k) + 1 > int prec" using k by simp
  with pos show ?thesis by (simp add: quantize_down_def)
qed

lemma floor_scaled_le: "0 < (m::rat) \<Longrightarrow> of_int \<lfloor>x * m\<rfloor> / m \<le> x"
proof -
  assume m: "0 < m"
  have "of_int \<lfloor>x * m\<rfloor> \<le> x * m" by (rule of_int_floor_le)
  with m show ?thesis by (simp add: pos_divide_le_eq)
qed

text \<open>
  C8 (as amended). For every non-negative decimal input below \<open>10^26\<close>, \<^verbatim>\<open>round_fiat\<close>
  returns the input truncated toward zero to exactly 2 decimal places, and for every
  non-negative input below \<open>10^20\<close>, \<^verbatim>\<open>round_coin\<close> returns it truncated toward zero to
  exactly 8 decimal places; the result never exceeds the input. At or above these bounds the
  truncated value would need more than the 28 digits of the decimal context, and
  \<^verbatim>\<open>quantize\<close> raises InvalidOperation instead of returning.
\<close>

theorem round_fiat_round_coin_truncate:
  assumes nn: "0 \<le> valof d"
  shows "(valof d < 10 ^ 26 \<longrightarrow>
            (\<exists>r. round_fiat d = Inr r \<and> expo r = - 2 \<and>
                 valof r = of_int \<lfloor>valof d * 10 ^ 2\<rfloor> / 10 ^ 2 \<and> valof r \<le> valof d)) \<and>
         (10 ^ 26 \<le> valof d \<longrightarrow> round_fiat d = Inl InvalidOperation) \<and>
         (valof d < 10 ^ 20 \<longrightarrow>
            (\<exists>r. round_coin d = Inr r \<and> expo r = - 8 \<and>
                 valof r = of_int \<lfloor>valof d * 10 ^ 8\<rfloor> / 10 ^ 8 \<and> valof r \<le> valof d)) \<and>
         (10 ^ 20 \<le> valof d \<longrightarrow> round_coin d = Inl InvalidOperation)"
proof (intro conjI impI)
  assume "valof d < 10 ^ 26"
  then have "valof d < 10 ^ (prec - 2)" by (simp add: prec_def)
  with nn have "\<exists>r. quantize_down (- int 2) d = Inr r \<and> expo r = - int 2 \<and>
      \<not> (0 < coeff r \<and> dsign r) \<and> valof r = of_int \<lfloor>valof d * 10 ^ 2\<rfloor> / 10 ^ 2"
    by (rule quantize_down_trunc) (simp add: prec_def)
  then obtain r where r: "round_fiat d = Inr r" "expo r = - 2"
      "valof r = of_int \<lfloor>valof d * 10 ^ 2\<rfloor> / 10 ^ 2"
    by (auto simp: round_fiat_def)
  have "of_int \<lfloor>valof d * 10 ^ 2\<rfloor> / 10 ^ 2 \<le> valof d" by (rule floor_scaled_le) simp
  then have "valof r \<le> valof d" by (simp only: r(3))
  with r show "\<exists>r. round_fiat d = Inr r \<and> expo r = - 2 \<and>
      valof r = of_int \<lfloor>valof d * 10 ^ 2\<rfloor> / 10 ^ 2 \<and> valof r \<le> valof d"
    by blast
next
  assume "10 ^ 26 \<le> valof d"
  then have "10 ^ (prec - 2) \<le> valof d" by (simp add: prec_def)
  then have "quantize_down (- int 2) d = Inl InvalidOperation"
    by (rule quantize_down_raises) (simp add: prec_def)
  then show "round_fiat d = Inl InvalidOperation" by (simp add: round_fiat_def)
next
  assume "valof d < 10 ^ 20"
  then have "valof d < 10 ^ (prec - 8)" by (simp add: prec_def)
  with nn have "\<exists>r. quantize_down (- int 8) d = Inr r \<and> expo r = - int 8 \<and>
      \<not> (0 < coeff r \<and> dsign r) \<and> valof r = of_int \<lfloor>valof d * 10 ^ 8\<rfloor> / 10 ^ 8"
    by (rule quantize_down_trunc) (simp add: prec_def)
  then obtain r where r: "round_coin d = Inr r" "expo r = - 8"
      "valof r = of_int \<lfloor>valof d * 10 ^ 8\<rfloor> / 10 ^ 8"
    by (auto simp: round_coin_def)
  have "of_int \<lfloor>valof d * 10 ^ 8\<rfloor> / 10 ^ 8 \<le> valof d" by (rule floor_scaled_le) simp
  then have "valof r \<le> valof d" by (simp only: r(3))
  with r show "\<exists>r. round_coin d = Inr r \<and> expo r = - 8 \<and>
      valof r = of_int \<lfloor>valof d * 10 ^ 8\<rfloor> / 10 ^ 8 \<and> valof r \<le> valof d"
    by blast
next
  assume "10 ^ 20 \<le> valof d"
  then have "10 ^ (prec - 8) \<le> valof d" by (simp add: prec_def)
  then have "quantize_down (- int 8) d = Inl InvalidOperation"
    by (rule quantize_down_raises) (simp add: prec_def)
  then show "round_coin d = Inl InvalidOperation" by (simp add: round_coin_def)
qed

theorem round_fiat_round_coin_truncate_witness:
  "0 \<le> valof (Dec False 10129 (- 3)) \<and> valof (Dec False 10129 (- 3)) < 10 ^ 20 \<and>
   (\<exists>r. round_fiat (Dec False 10129 (- 3)) = Inr r \<and> expo r = - 2 \<and> valof r = 1012 / 100) \<and>
   (\<exists>r. round_coin (Dec False 10129 (- 3)) = Inr r \<and> expo r = - 8 \<and> valof r = 10129 / 1000)"
proof -
  have v: "valof (Dec False 10129 (- 3)) = 10129 / 1000" by (simp add: valof_def)
  have f2: "\<lfloor>(10129 / 1000 :: rat) * 10 ^ 2\<rfloor> = 1012" by (simp add: floor_eq_iff)
  have f8: "\<lfloor>(10129 / 1000 :: rat) * 10 ^ 8\<rfloor> = 1012900000" by (simp add: floor_eq_iff)
  show ?thesis
    using round_fiat_round_coin_truncate [of "Dec False 10129 (- 3)"]
    unfolding v f2 f8 by auto
qed

text \<open>
  C8 as stated (every non-negative input is truncated) fails at \<open>10^26\<close> for
  \<^verbatim>\<open>round_fiat\<close> and at \<open>10^20\<close> for \<^verbatim>\<open>round_coin\<close>: both raise.
\<close>

theorem round_fiat_round_coin_huge_counterexample:
  "0 \<le> valof (Dec False 1 26) \<and> round_fiat (Dec False 1 26) = Inl InvalidOperation \<and>
   0 \<le> valof (Dec False 1 20) \<and> round_coin (Dec False 1 20) = Inl InvalidOperation"
  by (simp add: valof_def round_fiat_def round_coin_def quantize_down_def adjusted_def
      ndigits.simps prec_def)

text \<open>The examples of the specification: 10.129, 0.123456789, and a remainder below one unit.\<close>

lemma round_fiat_example: "round_fiat (Dec False 10129 (- 3)) = Inr (Dec False 1012 (- 2))"
  by (simp add: round_fiat_def quantize_down_def adjusted_def ndigits.simps prec_def)

lemma round_coin_example:
  "round_coin (Dec False 123456789 (- 9)) = Inr (Dec False 12345678 (- 8))"
  by (simp add: round_coin_def quantize_down_def adjusted_def ndigits.simps prec_def)

lemma round_coin_boundary_example:
  "round_coin (Dec False 19 (- 9)) = Inr (Dec False 1 (- 8))"
  by (simp add: round_coin_def quantize_down_def adjusted_def ndigits.simps prec_def)

section \<open>Balance refresh and signal evaluation\<close>

subsection \<open>What a balance refresh leaves alone\<close>

lemma refreshed_refl: "refreshed w w"
  by (simp add: refreshed_def)

lemma refreshed_trans: "refreshed w w' \<Longrightarrow> refreshed w' w'' \<Longrightarrow> refreshed w w''"
  by (auto simp: refreshed_def)

lemma refreshed_next_tick: "refreshed w (next_tick w)"
  by (simp add: refreshed_def next_tick_def)

lemma store_accounts_frame:
  "store_accounts accts w = Inr w' \<Longrightarrow>
     products w' = products w \<and> is_live w' = is_live w \<and> fiat_currency w' = fiat_currency w \<and>
     max_slippage w' = max_slippage w \<and> tick w' = tick w \<and> calls w' = calls w"
proof (induction accts arbitrary: w)
  case Nil
  then show ?case by simp
next
  case (Cons a accts)
  obtain currency available where a: "a = (currency, available)" by (cases a)
  from Cons.prems show ?case
    unfolding a
    by (auto simp: bind_exn_def split: if_splits sum.splits dest!: Cons.IH)
qed

lemma store_accounts_refreshed: "store_accounts accts w = Inr w' \<Longrightarrow> refreshed w w'"
  by (drule store_accounts_frame) (simp add: refreshed_def)

lemma add_holdings_refreshed: "refreshed w (snd (add_holdings e i ps w))"
proof (induction ps arbitrary: i w)
  case Nil
  then show ?case by (simp add: refreshed_refl)
next
  case (Cons p ps)
  have t1: "\<And>w. refreshed w (next_tick w)" by (rule refreshed_next_tick)
  have t2: "\<And>w. refreshed w (next_tick (next_tick w))"
    by (simp add: refreshed_def next_tick_def)
  have t3: "\<And>w. refreshed w (next_tick (next_tick (next_tick w)))"
    by (simp add: refreshed_def next_tick_def)
  have t3': "\<And>w v. refreshed w (next_tick (next_tick (next_tick w))\<lparr>fiat_equivalent := v\<rparr>)"
    by (simp add: refreshed_def next_tick_def)
  show ?case
    by (auto simp: t1 t2 t3 split: option.splits sum.splits
        intro: Cons.IH refreshed_trans [OF t1 Cons.IH] refreshed_trans [OF t2 Cons.IH]
               refreshed_trans [OF t3' Cons.IH])
qed

lemma update_amounts_refreshed: "refreshed w (snd (update_amounts e w))"
proof -
  have a: "\<And>w v. refreshed w (w\<lparr>fiat_equivalent := v\<rparr>)" by (simp add: refreshed_def)
  have z: "\<And>w. refreshed w (zero_balances w)" by (simp add: refreshed_def zero_balances_def)
  have l: "\<And>w v. refreshed w (w\<lparr>last_balance_update := v\<rparr>)" by (simp add: refreshed_def)
  have r: "\<And>w. refreshed w (record_call GetAccounts w)"
    by (simp add: refreshed_def record_call_def)
  let ?w1 = "next_tick w"
  let ?w2 = "next_tick (?w1\<lparr>last_balance_update := time_time e (tick ?w1)\<rparr>)"
  let ?w3 = "record_call GetAccounts ?w2"
  have w3: "refreshed w ?w3"
    by (simp add: refreshed_def record_call_def next_tick_def)
  show ?thesis
  proof (cases "time_time e (tick w) - last_balance_update ?w1 > 1")
    case False
    then show ?thesis by (simp add: update_amounts_def Let_def refreshed_next_tick)
  next
    case True
    show ?thesis
    proof (cases "bind_exn (get_accounts e (tick ?w2)) (\<lambda>r. case r of NotAList \<Rightarrow> Inr ?w3
                                       | Accounts accts \<Rightarrow> store_accounts accts ?w3)")
      case (Inl x)
      then show ?thesis using True refreshed_trans [OF w3 z]
        by (simp add: update_amounts_def Let_def)
    next
      case (Inr w4)
      then have "refreshed ?w3 w4"
        by (auto simp: bind_exn_def refreshed_refl split: sum.splits accounts.splits
            dest: store_accounts_refreshed)
      with w3 have w4: "refreshed w w4" by (rule refreshed_trans)
      let ?w4' = "w4\<lparr>fiat_equivalent := Dec False 0 (- 1)\<rparr>"
      have "refreshed w ?w4'" by (rule refreshed_trans [OF w4 a])
      then have w5: "refreshed w (snd (add_holdings e 0 (products w4) ?w4'))"
        by (rule refreshed_trans [OF _ add_holdings_refreshed])
      show ?thesis using True Inr w5
        by (auto simp: update_amounts_def Let_def bind_res_def split: prod.splits sum.splits
            intro: refreshed_trans [OF _ a])
    qed
  qed
qed

subsection \<open>Combination over the periods\<close>

lemma indicator_present:
  assumes "has_indicators ind p"
    and "key \<in> {''adx'', ''obv'', ''obv_ema'', ''stoch_slowk'', ''stoch_slowd''}"
  shows "\<exists>d. indicator ind p key = Inr d \<and> ival ind p key = valof d"
  using assms by (auto simp: has_indicators_def indicator_def ival_def split: option.splits)

lemma ind_cmp_present:
  assumes h: "has_indicators ind p"
    and a: "a \<in> {''adx'', ''obv'', ''obv_ema'', ''stoch_slowk'', ''stoch_slowd''}"
    and b: "b \<in> {''adx'', ''obv'', ''obv_ema'', ''stoch_slowk'', ''stoch_slowd''}"
  shows "ind_gt ind p a b = Inr (ival ind p a > ival ind p b)"
    and "ind_lt ind p a b = Inr (ival ind p a < ival ind p b)"
  using indicator_present [OF h a] indicator_present [OF h b]
  by (auto simp: ind_gt_def ind_lt_def bind_exn_def)

lemma ind_const_present:
  assumes h: "has_indicators ind p"
    and a: "a \<in> {''adx'', ''obv'', ''obv_ema'', ''stoch_slowk'', ''stoch_slowd''}"
  shows "ind_gt_const ind p a c = Inr (ival ind p a > valof c)"
    and "ind_lt_const ind p a c = Inr (ival ind p a < valof c)"
  using indicator_present [OF h a]
  by (auto simp: ind_gt_const_def ind_lt_const_def bind_exn_def)

lemma valof_consts: "valof (Dec False 25 0) = 25" "valof (Dec False 500 (- 1)) = 50"
  by (simp_all add: valof_def)

lemma combine_periods_acc:
  "list_all (has_indicators ind) ps \<Longrightarrow>
   combine_periods ps ind (b, s) =
     Inr (b \<and> list_all (period_buy ind) ps, s \<or> list_ex (period_sell ind) ps)"
proof (induction ps arbitrary: b s)
  case Nil
  then show ?case by simp
next
  case (Cons p ps)
  then have h: "has_indicators ind p" and rest: "list_all (has_indicators ind) ps" by simp_all
  note cmp = ind_cmp_present [OF h] ind_const_present [OF h]
  have adx: "ind_gt_const ind p ''adx'' (Dec False 25 0) = Inr (ival ind p ''adx'' > 25)"
    by (simp add: cmp valof_consts)
  have obv_gt: "ind_gt ind p ''obv'' ''obv_ema'' = Inr (ival ind p ''obv'' > ival ind p ''obv_ema'')"
    by (simp add: cmp)
  have obv_lt: "ind_lt ind p ''obv'' ''obv_ema'' = Inr (ival ind p ''obv'' < ival ind p ''obv_ema'')"
    by (simp add: cmp)
  have k_gt: "ind_gt ind p ''stoch_slowk'' ''stoch_slowd'' =
      Inr (ival ind p ''stoch_slowk'' > ival ind p ''stoch_slowd'')"
    by (simp add: cmp)
  have k_lt: "ind_lt ind p ''stoch_slowk'' ''stoch_slowd'' =
      Inr (ival ind p ''stoch_slowk'' < ival ind p ''stoch_slowd'')"
    by (simp add: cmp)
  have k_hi: "ind_gt_const ind p ''stoch_slowk'' (Dec False 500 (- 1)) =
      Inr (ival ind p ''stoch_slowk'' > 50)"
    by (simp add: cmp valof_consts)
  have k_lo: "ind_lt_const ind p ''stoch_slowk'' (Dec False 500 (- 1)) =
      Inr (ival ind p ''stoch_slowk'' < 50)"
    by (simp add: cmp valof_consts)
  show ?case
  proof (cases "ival ind p ''adx'' > 25")
    case True
    then show ?thesis
      by (simp add: adx obv_gt obv_lt bind_exn_def Cons.IH [OF rest] period_buy_def period_sell_def)
  next
    case False
    then show ?thesis
      by (simp add: adx k_gt k_lt k_hi k_lo bind_exn_def Cons.IH [OF rest]
          period_buy_def period_sell_def)
  qed
qed

text \<open>
  C2. With the indicators of every period present, the loop of \<^verbatim>\<open>determine_trades\<close>
  computes the buy intent as the conjunction over all periods of the period's buy condition and
  the sell intent as the disjunction over all periods of the period's sell condition, where a
  period with ADX above 25 uses the trending rule and any other period the ranging rule. For a
  product that is not quoted in BTC this is the intent the transition acts on.
\<close>

theorem signal_combination:
  assumes "list_all (has_indicators ind) period_list"
  shows "combine_periods period_list ind (True, False) =
           Inr (list_all (period_buy ind) period_list, list_ex (period_sell ind) period_list) \<and>
         (pid \<noteq> ''LTC-BTC'' \<and> pid \<noteq> ''ETH-BTC'' \<longrightarrow>
            signals pid period_list ind w =
              Inr (list_all (period_buy ind) period_list, list_ex (period_sell ind) period_list))"
  using combine_periods_acc [OF assms, of True False]
  by (simp add: signals_def cross_pair_gate_def bind_exn_def)

lemma example_has: "has_indicators example_indicators ''P1''" "has_indicators example_indicators ''P2''"
  by (simp_all add: has_indicators_def example_indicators_def)

lemma example_vals:
  "ival example_indicators ''P1'' ''adx'' = 30"
  "ival example_indicators ''P1'' ''obv'' = 10"
  "ival example_indicators ''P1'' ''obv_ema'' = 5"
  "ival example_indicators ''P2'' ''adx'' = 10"
  "ival example_indicators ''P2'' ''stoch_slowk'' = 40"
  "ival example_indicators ''P2'' ''stoch_slowd'' = 20"
  by (simp_all add: ival_def indicator_def example_indicators_def valof_def)

theorem signal_combination_witness:
  "list_all (has_indicators example_indicators) [''P1'', ''P2''] \<and>
   combine_periods [''P1'', ''P2''] example_indicators (True, False) = Inr (True, False) \<and>
   signals ''BTC-USD'' [''P1'', ''P2''] example_indicators (example_engine []) = Inr (True, False)"
  using signal_combination [of example_indicators "[''P1'', ''P2'']" "''BTC-USD''"
      "example_engine []"]
  by (simp add: example_has example_vals period_buy_def period_sell_def)

subsection \<open>The gate of the pairs quoted in BTC\<close>

lemma product_index_Some:
  "product_index pid ps = Some i \<Longrightarrow> i < length ps \<and> product_id (ps ! i) = pid"
proof (induction ps arbitrary: i)
  case Nil
  then show ?case by simp
next
  case (Cons p ps)
  then show ?case by (auto split: if_splits)
qed

lemma get_product_Some:
  "get_product_by_product_id w pid = Some i \<Longrightarrow>
     i < length (products w) \<and> product_id (products w ! i) = pid"
  unfolding get_product_by_product_id_def by (rule product_index_Some)

text \<open>
  C4. For a product quoted in BTC (LTC-BTC or ETH-BTC) whose fiat counterpart and the BTC-fiat
  product are in the product list, the final buy intent is the buy intent combined over the
  periods and the buy flag of the product's own fiat counterpart (LTC-fiat, ETH-fiat), and the
  final sell intent is the combined sell intent and the buy flag of the BTC-fiat product.
\<close>

theorem cross_pair_gating:
  assumes pid: "(pid = ''LTC-BTC'' \<and> own = ''LTC-'' @ fiat_currency w) \<or>
                (pid = ''ETH-BTC'' \<and> own = ''ETH-'' @ fiat_currency w)"
    and comb: "combine_periods period_list ind (True, False) = Inr (b, s)"
    and own: "get_product_by_product_id w own = Some j"
    and ref: "get_product_by_product_id w (''BTC-'' @ fiat_currency w) = Some k"
  shows "signals pid period_list ind w =
           Inr (b \<and> buy_flag (products w ! j), s \<and> buy_flag (products w ! k)) \<and>
         product_id (products w ! j) = own \<and>
         product_id (products w ! k) = ''BTC-'' @ fiat_currency w"
proof -
  have t: "take 3 pid @ ''-'' @ fiat_currency w = own" using pid by auto
  have btc: "pid = ''LTC-BTC'' \<or> pid = ''ETH-BTC''" using pid by auto
  have "cross_pair_gate pid (b, s) w =
           Inr (b \<and> buy_flag (products w ! j), s \<and> buy_flag (products w ! k))"
    unfolding cross_pair_gate_def t using btc own ref
    by (auto simp: bind_exn_def flag_of_def)
  then have "signals pid period_list ind w =
           Inr (b \<and> buy_flag (products w ! j), s \<and> buy_flag (products w ! k))"
    using comb by (simp add: signals_def bind_exn_def)
  with get_product_Some [OF own] get_product_Some [OF ref] show ?thesis by simp
qed

lemma gate_engine_lookup:
  "get_product_by_product_id gate_engine ''LTC-USD'' = Some 1"
  "get_product_by_product_id gate_engine ''BTC-USD'' = Some 2"
  "fiat_currency gate_engine = ''USD''"
  "buy_flag (products gate_engine ! 1)" "buy_flag (products gate_engine ! Suc 0)"
  "\<not> buy_flag (products gate_engine ! 2)"
  by (simp_all add: get_product_by_product_id_def gate_engine_def example_engine_def
      example_product_def)

lemma example_combined:
  "combine_periods [''P1'', ''P2''] example_indicators (True, False) = Inr (True, False)"
proof -
  have "list_all (has_indicators example_indicators) [''P1'', ''P2'']"
    by (simp add: example_has)
  from combine_periods_acc [OF this, of True False] show ?thesis
    by (simp add: example_vals period_buy_def period_sell_def del: combine_periods.simps)
qed

theorem cross_pair_gating_witness:
  "combine_periods [''P1'', ''P2''] example_indicators (True, False) = Inr (True, False) \<and>
   get_product_by_product_id gate_engine ''LTC-USD'' = Some 1 \<and>
   get_product_by_product_id gate_engine ''BTC-USD'' = Some 2 \<and>
   signals ''LTC-BTC'' [''P1'', ''P2''] example_indicators gate_engine = Inr (True, False)"
  using cross_pair_gating [of "''LTC-BTC''" "''LTC-USD''" gate_engine "[''P1'', ''P2'']"
      example_indicators True False 1 2]
  by (simp add: gate_engine_lookup example_combined del: combine_periods.simps)

text \<open>
  C3 as stated fails: with BTC-USD's buy flag clear, LTC-USD's set and both periods signalling
  buy, the buy intent of LTC-BTC is true. The code gates the buy intent of LTC-BTC on LTC-fiat.
\<close>

theorem ltc_btc_gate_counterexample:
  "get_product_by_product_id gate_engine (''BTC-'' @ fiat_currency gate_engine) = Some 2 \<and>
   \<not> buy_flag (products gate_engine ! 2) \<and>
   signals ''LTC-BTC'' [''P1'', ''P2''] example_indicators gate_engine = Inr (True, False)"
  by (simp add: gate_engine_lookup example_combined signals_def cross_pair_gate_def
      bind_exn_def flag_of_def del: combine_periods.simps)

text \<open>
  C3 (as amended). For LTC-BTC, if the buy flag of the LTC-fiat product is false then the
  resulting buy intent is false, whatever the periods signal; the buy flag of BTC-fiat gates
  the sell intent instead.
\<close>

theorem ltc_btc_buy_gate:
  assumes comb: "combine_periods period_list ind (True, False) = Inr (b, s)"
    and own: "get_product_by_product_id w (''LTC-'' @ fiat_currency w) = Some j"
    and off: "\<not> buy_flag (products w ! j)"
    and ref: "get_product_by_product_id w (''BTC-'' @ fiat_currency w) = Some k"
  shows "signals ''LTC-BTC'' period_list ind w = Inr (False, s \<and> buy_flag (products w ! k))"
proof -
  have "cross_pair_gate ''LTC-BTC'' (b, s) w = Inr (False, s \<and> buy_flag (products w ! k))"
    using own off ref by (auto simp: cross_pair_gate_def bind_exn_def flag_of_def)
  then show ?thesis using comb by (simp add: signals_def bind_exn_def)
qed

theorem ltc_btc_buy_gate_witness:
  "combine_periods [''P1'', ''P2''] example_indicators (True, False) = Inr (True, False) \<and>
   get_product_by_product_id gate_engine_off (''LTC-'' @ fiat_currency gate_engine_off) = Some 1 \<and>
   \<not> buy_flag (products gate_engine_off ! 1) \<and>
   get_product_by_product_id gate_engine_off (''BTC-'' @ fiat_currency gate_engine_off) = Some 2 \<and>
   signals ''LTC-BTC'' [''P1'', ''P2''] example_indicators gate_engine_off = Inr (False, False)"
proof -
  have l: "get_product_by_product_id gate_engine_off (''LTC-'' @ fiat_currency gate_engine_off) = Some 1"
    "get_product_by_product_id gate_engine_off (''BTC-'' @ fiat_currency gate_engine_off) = Some 2"
    "\<not> buy_flag (products gate_engine_off ! 1)"
    by (simp_all add: get_product_by_product_id_def gate_engine_off_def example_engine_def
        example_product_def)
  show ?thesis
    using ltc_btc_buy_gate [OF example_combined l(1) l(3) l(2)] l example_combined
    by (simp del: combine_periods.simps)
qed

subsection \<open>The transition of \<^verbatim>\<open>determine_trades\<close>\<close>

lemma add_holdings_calls: "calls (snd (add_holdings e i ps w)) = calls w"
proof (induction ps arbitrary: i w)
  case Nil
  then show ?case by simp
next
  case (Cons p ps)
  have c: "\<And>w. calls (next_tick w) = calls w" by (simp add: next_tick_def)
  show ?case
    by (auto simp: c Cons.IH split: option.splits sum.splits)
qed

lemma update_amounts_calls:
  "calls (snd (update_amounts e w)) = calls w \<or>
   calls (snd (update_amounts e w)) = calls w @ [GetAccounts]"
proof -
  let ?w1 = "next_tick w"
  let ?w2 = "next_tick (?w1\<lparr>last_balance_update := time_time e (tick ?w1)\<rparr>)"
  let ?w3 = "record_call GetAccounts ?w2"
  have w3: "calls ?w3 = calls w @ [GetAccounts]"
    by (simp add: record_call_def next_tick_def)
  show ?thesis
  proof (cases "time_time e (tick w) - last_balance_update ?w1 > 1")
    case False
    then show ?thesis by (simp add: update_amounts_def Let_def next_tick_def)
  next
    case True
    show ?thesis
    proof (cases "bind_exn (get_accounts e (tick ?w2)) (\<lambda>r. case r of NotAList \<Rightarrow> Inr ?w3
                                       | Accounts accts \<Rightarrow> store_accounts accts ?w3)")
      case (Inl x)
      then show ?thesis using True w3
        by (simp add: update_amounts_def Let_def zero_balances_def)
    next
      case (Inr w4)
      then have "calls w4 = calls ?w3"
        by (auto simp: bind_exn_def split: sum.splits accounts.splits
            dest: store_accounts_frame)
      with w3 have w4: "calls w4 = calls w @ [GetAccounts]" by simp
      let ?w4' = "w4\<lparr>fiat_equivalent := Dec False 0 (- 1)\<rparr>"
      have "calls (snd (add_holdings e 0 (products w4) ?w4')) = calls w @ [GetAccounts]"
        using w4 by (simp add: add_holdings_calls)
      then show ?thesis using True Inr
        by (auto simp: update_amounts_def Let_def bind_res_def split: prod.splits sum.splits)
    qed
  qed
qed

lemma refreshed_products: "refreshed w w' \<Longrightarrow> products w' = products w"
  by (simp add: refreshed_def)

lemma simulated_is_refresh:
  assumes "\<not> is_live w"
  shows "determine_trades e pid period_list ind w = update_amounts e w"
proof -
  obtain r w1 where u: "update_amounts e w = (r, w1)" by (cases "update_amounts e w")
  have "refreshed w w1" using update_amounts_refreshed [of w e] u by simp
  then have "\<not> is_live w1" using assms by (simp add: refreshed_def)
  then show ?thesis using u
    by (cases r) (simp_all add: determine_trades_def bind_res_def)
qed

text \<open>
  C10. With \<^verbatim>\<open>is_live\<close> false a call of \<^verbatim>\<open>determine_trades\<close> is the balance refresh and
  nothing else: the products (flags, open orders, last signal switch) are as before, and the
  trace grows by at most one \<^verbatim>\<open>get_accounts\<close> call, so no worker thread is started and no
  order is placed.
\<close>

theorem simulated_mode_frame:
  assumes "\<not> is_live w"
  shows "determine_trades e pid period_list ind w = update_amounts e w \<and>
         products (snd (determine_trades e pid period_list ind w)) = products w \<and>
         (calls (snd (determine_trades e pid period_list ind w)) = calls w \<or>
          calls (snd (determine_trades e pid period_list ind w)) = calls w @ [GetAccounts])"
  using simulated_is_refresh [OF assms, of e pid period_list ind]
    refreshed_products [OF update_amounts_refreshed [of w e]] update_amounts_calls [of e w]
  by simp

lemmas dec_eval = dec_add_def dec_sub_def dec_mul_def dec_div_def dec_fix_def copy_negate_def
  signed_coeff_def round_half_even_def ndigits.simps strip_zeros.simps prec_def Emax_def
  Emin_def Etiny_def Etop_def round_coin_def round_fiat_def quantize_down_def adjusted_def

lemma simulated_refresh_run:
  "calls (snd (update_amounts late_env simulated_engine)) = [GetAccounts]"
  by (simp add: update_amounts_def late_env_def example_env_def simulated_engine_def
      example_engine_def example_product_def next_tick_def record_call_def bind_exn_def
      bind_res_def getattr_def need_dec_def dec_eval Let_def)

theorem simulated_mode_frame_witness:
  "\<not> is_live simulated_engine \<and>
   products (snd (determine_trades late_env ''BTC-USD'' [''P1'', ''P2''] example_indicators
      simulated_engine)) = products simulated_engine \<and>
   calls (snd (determine_trades late_env ''BTC-USD'' [''P1'', ''P2''] example_indicators
      simulated_engine)) = [GetAccounts]"
proof -
  have n: "\<not> is_live simulated_engine" by (simp add: simulated_engine_def)
  note t = simulated_mode_frame [OF n, of late_env "''BTC-USD''" "[''P1'', ''P2'']"
      example_indicators]
  from t have p: "products (snd (determine_trades late_env ''BTC-USD'' [''P1'', ''P2'']
      example_indicators simulated_engine)) = products simulated_engine"
    by blast
  from t have "determine_trades late_env ''BTC-USD'' [''P1'', ''P2''] example_indicators
      simulated_engine = update_amounts late_env simulated_engine"
    by blast
  then have c: "calls (snd (determine_trades late_env ''BTC-USD'' [''P1'', ''P2'']
      example_indicators simulated_engine)) = [GetAccounts]"
    by (simp only: simulated_refresh_run)
  from n p c show ?thesis by blast
qed


lemma upd_product_frame [simp]:
  "calls (upd_product i f w) = calls w" "tick (upd_product i f w) = tick w"
  "is_live (upd_product i f w) = is_live w" "fiat_currency (upd_product i f w) = fiat_currency w"
  "max_slippage (upd_product i f w) = max_slippage w"
  "btc (upd_product i f w) = btc w" "bch (upd_product i f w) = bch w"
  "eth (upd_product i f w) = eth w" "ltc (upd_product i f w) = ltc w"
  "fiat (upd_product i f w) = fiat w"
  "products (upd_product i f w) = (products w)[i := f (products w ! i)]"
  by (simp_all add: upd_product_def)

lemma next_tick_frame [simp]:
  "calls (next_tick w) = calls w" "tick (next_tick w) = Suc (tick w)"
  "is_live (next_tick w) = is_live w" "fiat_currency (next_tick w) = fiat_currency w"
  "max_slippage (next_tick w) = max_slippage w"
  "btc (next_tick w) = btc w" "bch (next_tick w) = bch w"
  "eth (next_tick w) = eth w" "ltc (next_tick w) = ltc w"
  "fiat (next_tick w) = fiat w" "products (next_tick w) = products w"
  by (simp_all add: next_tick_def)

lemma start_thread_frame [simp]:
  "calls (start_thread s i w) = calls w @ [StartThread s i]" "tick (start_thread s i w) = tick w"
  "btc (start_thread s i w) = btc w" "bch (start_thread s i w) = bch w"
  "eth (start_thread s i w) = eth w" "ltc (start_thread s i w) = ltc w"
  "fiat (start_thread s i w) = fiat w"
  "products (start_thread s i w) =
     (products w)[i := (products w ! i)\<lparr>order_thread := Some s\<rparr>]"
  by (simp_all add: start_thread_def)

lemma quoted_currency_cong:
  "btc w' = btc w \<Longrightarrow> fiat w' = fiat w \<Longrightarrow> quoted_currency pid w' = quoted_currency pid w"
  by (simp add: quoted_currency_def)

lemma base_currency_cong:
  "btc w' = btc w \<Longrightarrow> bch w' = bch w \<Longrightarrow> eth w' = eth w \<Longrightarrow> ltc w' = ltc w \<Longrightarrow>
   base_currency pid w' = base_currency pid w"
  by (simp add: base_currency_def)

lemma get_quoted_effect:
  assumes "get_quoted_currency_from_product_id e pid w = (r, w')"
  shows "refreshed w w' \<and> (\<forall>q. r = Inr q \<longrightarrow> quoted_currency pid w' = Inr q)"
proof -
  obtain r1 w1 where u: "update_amounts e w = (r1, w1)" by (cases "update_amounts e w")
  have "refreshed w w1" using update_amounts_refreshed [of w e] u by simp
  with assms u show ?thesis
    by (cases r1) (auto simp: get_quoted_currency_from_product_id_def bind_res_def)
qed

lemma get_base_effect:
  assumes "get_base_currency_from_product_id e pid True w = (r, w')"
  shows "refreshed w w' \<and> (\<forall>q. r = Inr q \<longrightarrow> base_currency pid w' = Inr q)"
proof -
  obtain r1 w1 where u: "update_amounts e w = (r1, w1)" by (cases "update_amounts e w")
  have "refreshed w w1" using update_amounts_refreshed [of w e] u by simp
  with assms u show ?thesis
    by (cases r1) (auto simp: get_base_currency_from_product_id_def bind_res_def)
qed

lemma read_balances_effect:
  assumes "read_balances e pid w = (r, w')"
  shows "refreshed w w' \<and> (\<forall>q. r = Inr q \<longrightarrow> base_currency pid w' = Inr q)"
proof -
  obtain r1 w1 where u: "update_amounts e w = (r1, w1)" by (cases "update_amounts e w")
  have r1: "refreshed w w1" using update_amounts_refreshed [of w e] u by simp
  show ?thesis
  proof (cases r1)
    case (Inl x)
    with assms u r1 show ?thesis by (auto simp: read_balances_def bind_res_def)
  next
    case (Inr a)
    with assms u have g: "get_base_currency_from_product_id e pid True w1 = (r, w')"
      by (simp add: read_balances_def bind_res_def)
    from get_base_effect [OF g] r1 show ?thesis by (blast intro: refreshed_trans)
  qed
qed

lemma price_and_size_effect:
  assumes "price_and_size e i amount w = (r, w')"
  shows "w' = next_tick w \<and>
         (\<forall>bid size. r = Inr (bid, size) \<longrightarrow>
            (\<exists>a quot. amount = Some a \<and>
               dec_sub (get_ask e (tick w) i) (quote_increment (products w ! i)) = Inr bid \<and>
               dec_div a bid = Inr quot \<and> round_coin quot = Inr size))"
  using assms
  by (auto simp: price_and_size_def Let_def bind_exn_def need_dec_def
      split: sum.splits option.splits)

lemma signals_refreshed:
  assumes "refreshed w w'"
  shows "signals pid ps ind w' = signals pid ps ind w"
proof -
  have p: "products w' = products w" and f: "fiat_currency w' = fiat_currency w"
    using assms by (simp_all add: refreshed_def)
  show ?thesis
    unfolding signals_def cross_pair_gate_def get_product_by_product_id_def flag_of_def p f
    by (rule refl)
qed

lemma get_product_refreshed:
  "refreshed w w' \<Longrightarrow> get_product_by_product_id w' pid = get_product_by_product_id w pid"
  by (simp add: refreshed_def get_product_by_product_id_def)

lemma determine_trades_live:
  assumes live: "is_live w0"
  shows "determine_trades e pid ps ind w0 =
     (case read_balances e pid w0 of
        (Inl x, w1) \<Rightarrow> (Inl x, w1)
      | (Inr coin, w1) \<Rightarrow>
          (case signals pid ps ind w0 of
             Inl x \<Rightarrow> (Inl x, w1)
           | Inr (nb, ns) \<Rightarrow>
               (case get_product_by_product_id w0 pid of
                  None \<Rightarrow> (Inl AttributeError, w1)
                | Some i \<Rightarrow>
                    if nb then buy_signal e pid i w1
                    else if ns then sell_signal e i coin w1
                    else (Inr (), upd_product i (\<lambda>p. p\<lparr>buy_flag := False, sell_flag := False\<rparr>) w1))))"
proof -
  obtain r1 wa where u: "update_amounts e w0 = (r1, wa)" by (cases "update_amounts e w0")
  have ra: "refreshed w0 wa" using update_amounts_refreshed [of w0 e] u by simp
  then have la: "is_live wa" using live by (simp add: refreshed_def)
  show ?thesis
  proof (cases r1)
    case (Inl x)
    with u show ?thesis by (simp add: determine_trades_def read_balances_def bind_res_def)
  next
    case (Inr a)
    obtain r2 wb where g: "get_base_currency_from_product_id e pid True wa = (r2, wb)"
      by (cases "get_base_currency_from_product_id e pid True wa")
    have rb: "refreshed w0 wb" using get_base_effect [OF g] ra by (blast intro: refreshed_trans)
    have rd: "read_balances e pid w0 = (r2, wb)"
      using u Inr g by (simp add: read_balances_def bind_res_def)
    show ?thesis
    proof (cases r2)
      case (Inl x)
      with u Inr g la rd show ?thesis by (simp add: determine_trades_def bind_res_def)
    next
      case coin: (Inr coin)
      show ?thesis
        using u Inr g la rd coin signals_refreshed [OF rb, of pid ps ind]
          get_product_refreshed [OF rb, of pid]
        by (auto simp: determine_trades_def bind_res_def lift_def
            split: sum.splits option.splits prod.splits)
    qed
  qed
qed


lemma switch_signal_frame [simp]:
  "calls (switch_signal e i b w) = calls w"
  "btc (switch_signal e i b w) = btc w" "bch (switch_signal e i b w) = bch w"
  "eth (switch_signal e i b w) = eth w" "ltc (switch_signal e i b w) = ltc w"
  "fiat (switch_signal e i b w) = fiat w"
  "products (switch_signal e i b w) =
     (products w)[i := (products w ! i)\<lparr>last_signal_switch :=
        (if b then time_time e (tick w) else last_signal_switch (products w ! i))\<rparr>]"
  by (simp_all add: switch_signal_def)

lemma buy_signal_effect:
  assumes i: "i < length (products w)" and run: "buy_signal e pid i w = (r, w')"
  shows "\<exists>ot xs.
      products w' = (products w)[i := (products w ! i)\<lparr>buy_flag := True, sell_flag := False,
         last_signal_switch := (if sell_flag (products w ! i) then time_time e (tick w)
                                else last_signal_switch (products w ! i)),
         order_thread := ot\<rparr>] \<and>
      calls w' = calls w @ xs \<and>
      (set xs \<subseteq> {GetAccounts} \<or>
       (\<exists>ys. xs = ys @ [StartThread Buy i] \<and> set ys \<subseteq> {GetAccounts} \<and>
          \<not> order_in_progress (products w ! i) \<and>
          (\<exists>t q bid quot size. tick w' = Suc t \<and> quoted_currency pid w' = Inr (Some q) \<and>
             dec_sub (get_ask e t i) (quote_increment (products w ! i)) = Inr bid \<and>
             dec_div q bid = Inr quot \<and> round_coin quot = Inr size \<and>
             valof (min_size (products w ! i)) \<le> valof size)))"
proof -
  let ?p = "products w ! i"
  let ?lss = "if sell_flag ?p then time_time e (tick w) else last_signal_switch ?p"
  let ?p2 = "?p\<lparr>buy_flag := True, sell_flag := False, last_signal_switch := ?lss\<rparr>"
  define w2 where "w2 = upd_product i (\<lambda>p. p\<lparr>sell_flag := False, buy_flag := True\<rparr>)
      (switch_signal e i (sell_flag ?p) w)"
  have p2: "products w2 = (products w)[i := ?p2]" and c2: "calls w2 = calls w"
    using i by (cases "products w ! i"; simp add: w2_def)+
  obtain rq w3 where q: "get_quoted_currency_from_product_id e pid w2 = (rq, w3)"
    by (cases "get_quoted_currency_from_product_id e pid w2")
  from get_quoted_effect [OF q] have r3: "refreshed w2 w3"
    and q3: "\<And>a. rq = Inr a \<Longrightarrow> quoted_currency pid w3 = Inr a" by blast+
  from r3 obtain xs where p3: "products w3 = (products w)[i := ?p2]"
    and c3: "calls w3 = calls w @ xs" and xs: "set xs \<subseteq> {GetAccounts}"
    using p2 c2 by (auto simp: refreshed_def)
  have same: "?p2 = ?p\<lparr>buy_flag := True, sell_flag := False, last_signal_switch := ?lss,
      order_thread := order_thread ?p\<rparr>" by (cases "products w ! i") simp
  show ?thesis
  proof (cases rq)
    case (Inl x)
    with run q have "w' = w3" by (simp add: buy_signal_def w2_def bind_res_def Let_def)
    with p3 c3 xs same show ?thesis by metis
  next
    case (Inr amount)
    obtain rp w4 where ps: "price_and_size e i amount w3 = (rp, w4)"
      by (cases "price_and_size e i amount w3")
    from price_and_size_effect [OF ps] have w4: "w4 = next_tick w3"
      and sz: "\<And>bid size. rp = Inr (bid, size) \<Longrightarrow> \<exists>a quot. amount = Some a \<and>
               dec_sub (get_ask e (tick w3) i) (quote_increment (products w3 ! i)) = Inr bid \<and>
               dec_div a bid = Inr quot \<and> round_coin quot = Inr size" by blast+
    have p4: "products w4 = (products w)[i := ?p2]" and c4: "calls w4 = calls w @ xs"
      using w4 p3 c3 by simp_all
    show ?thesis
    proof (cases rp)
      case (Inl x)
      with run q Inr ps have "w' = w4" by (simp add: buy_signal_def w2_def bind_res_def Let_def)
      with p4 c4 xs same show ?thesis by metis
    next
      case bs: (Inr bs)
      obtain bid size where bs': "bs = (bid, size)" by (cases bs)
      from sz [of bid size] bs bs' obtain a quot where a: "amount = Some a"
        and d: "dec_sub (get_ask e (tick w3) i) (quote_increment ?p) = Inr bid"
        and dv: "dec_div a bid = Inr quot" and rc: "round_coin quot = Inr size"
        using p3 i by auto
      let ?go = "valof size \<ge> valof (min_size (products w4 ! i)) \<and>
                 \<not> order_in_progress (products w4 ! i)"
      have fin: "w' = (if ?go then start_thread Buy i w4 else w4)"
        using run q Inr ps bs bs' by (simp add: buy_signal_def w2_def bind_res_def Let_def)
      show ?thesis
      proof (cases ?go)
        case False
        with fin have "w' = w4" by simp
        with p4 c4 xs same show ?thesis by metis
      next
        case True
        with fin have w': "w' = start_thread Buy i w4" by simp
        have go: "valof (min_size ?p) \<le> valof size" "\<not> order_in_progress ?p"
          using True p4 i by simp_all
        have pw: "products w' = (products w)[i := ?p\<lparr>buy_flag := True, sell_flag := False,
            last_signal_switch := ?lss, order_thread := Some Buy\<rparr>]"
          using w' p4 i by (cases "products w ! i") simp
        have cw: "calls w' = calls w @ (xs @ [StartThread Buy i])" using w' c4 by simp
        have tw: "tick w' = Suc (tick w3)" using w' w4 by simp
        have "quoted_currency pid w' = quoted_currency pid w3"
          using w' w4 by (intro quoted_currency_cong) simp_all
        with q3 [OF Inr] a have qw: "quoted_currency pid w' = Inr (Some a)" by simp
        from pw cw xs go tw qw d dv rc show ?thesis by blast
      qed
    qed
  qed
qed


lemma sell_signal_effect:
  assumes i: "i < length (products w)" and run: "sell_signal e i coin w = (r, w')"
  shows "\<exists>ot.
      products w' = (products w)[i := (products w ! i)\<lparr>buy_flag := False, sell_flag := True,
         last_signal_switch := (if buy_flag (products w ! i) then time_time e (tick w)
                                else last_signal_switch (products w ! i)),
         order_thread := ot\<rparr>] \<and>
      base_currency pid w' = base_currency pid w \<and>
      (calls w' = calls w \<or>
       (calls w' = calls w @ [StartThread Sell i] \<and> \<not> order_in_progress (products w ! i) \<and>
        (\<exists>c. coin = Some c \<and> valof (min_size (products w ! i)) \<le> valof c)))"
proof -
  let ?p = "products w ! i"
  let ?lss = "if buy_flag ?p then time_time e (tick w) else last_signal_switch ?p"
  let ?p2 = "?p\<lparr>buy_flag := False, sell_flag := True, last_signal_switch := ?lss\<rparr>"
  define w2 where "w2 = upd_product i (\<lambda>p. p\<lparr>buy_flag := False, sell_flag := True\<rparr>)
      (switch_signal e i (buy_flag ?p) w)"
  have p2: "products w2 = (products w)[i := ?p2]" and c2: "calls w2 = calls w"
    using i by (cases "products w ! i"; simp add: w2_def)+
  have b2: "base_currency pid w2 = base_currency pid w"
    by (intro base_currency_cong) (simp_all add: w2_def)
  have same: "?p2 = ?p\<lparr>buy_flag := False, sell_flag := True, last_signal_switch := ?lss,
      order_thread := order_thread ?p\<rparr>" by (cases "products w ! i") simp
  show ?thesis
  proof (cases coin)
    case None
    with run have "w' = w2" unfolding sell_signal_def Let_def w2_def [symmetric]
      by (simp add: bind_res_def lift_def need_dec_def)
    with p2 c2 b2 same show ?thesis by metis
  next
    case (Some c)
    let ?go = "valof c \<ge> valof (min_size (products w2 ! i)) \<and>
               \<not> order_in_progress (products w2 ! i)"
    have fin: "w' = (if ?go then start_thread Sell i w2 else w2)"
      using run Some unfolding sell_signal_def Let_def w2_def [symmetric]
      by (auto simp: bind_res_def lift_def need_dec_def)
    show ?thesis
    proof (cases ?go)
      case False
      with fin have "w' = w2" by simp
      with p2 c2 b2 same show ?thesis by metis
    next
      case True
      with fin have w': "w' = start_thread Sell i w2" by simp
      have go: "valof (min_size ?p) \<le> valof c" "\<not> order_in_progress ?p"
        using True p2 i by simp_all
      have pw: "products w' = (products w)[i := ?p\<lparr>buy_flag := False, sell_flag := True,
          last_signal_switch := ?lss, order_thread := Some Sell\<rparr>]"
        using w' p2 i by (cases "products w ! i") simp
      have cw: "calls w' = calls w @ [StartThread Sell i]" using w' c2 by simp
      have "base_currency pid w' = base_currency pid w2"
        using w' by (intro base_currency_cong) simp_all
      with b2 have bw: "base_currency pid w' = base_currency pid w" by simp
      from pw cw go bw Some show ?thesis by blast
    qed
  qed
qed

text \<open>
  C9. In live mode a call of \<^verbatim>\<open>determine_trades\<close> never makes the buy flag and the sell flag
  of a product both true. Once the balances are read, the signals are evaluated and the product
  is found, the call sets the buy flag to the buy intent and the sell flag to the sell intent
  without the buy intent (both false when neither holds), and it records the time in
  \<^verbatim>\<open>last_signal_switch\<close> exactly when the product was in the opposite state before.
\<close>

theorem flag_transition:
  assumes live: "is_live w0" and run: "determine_trades e pid period_list ind w0 = (r, w')"
  shows "(\<forall>j<length (products w0).
            \<not> (buy_flag (products w0 ! j) \<and> sell_flag (products w0 ! j)) \<longrightarrow>
            \<not> (buy_flag (products w' ! j) \<and> sell_flag (products w' ! j))) \<and>
         (read_balances e pid w0 = (Inr coin, w1) \<and>
          signals pid period_list ind w0 = Inr (nb, ns) \<and>
          get_product_by_product_id w0 pid = Some i \<longrightarrow>
            buy_flag (products w' ! i) = nb \<and> sell_flag (products w' ! i) = (\<not> nb \<and> ns) \<and>
            \<not> (buy_flag (products w' ! i) \<and> sell_flag (products w' ! i)) \<and>
            last_signal_switch (products w' ! i) =
              (if (nb \<and> sell_flag (products w0 ! i)) \<or> (\<not> nb \<and> ns \<and> buy_flag (products w0 ! i))
               then time_time e (tick w1) else last_signal_switch (products w0 ! i)))"
proof -
  obtain rb wb where rd: "read_balances e pid w0 = (rb, wb)"
    by (cases "read_balances e pid w0")
  from read_balances_effect [OF rd] have pb: "products wb = products w0"
    by (simp add: refreshed_def)
  note dt = determine_trades_live [OF live, of e pid period_list ind]
  have early: "w' = wb \<Longrightarrow>
      \<not> (\<exists>coin w1 nb ns i. read_balances e pid w0 = (Inr coin, w1) \<and>
            signals pid period_list ind w0 = Inr (nb, ns) \<and>
            get_product_by_product_id w0 pid = Some i) \<Longrightarrow> ?thesis"
    using pb by auto
  show ?thesis
  proof (cases rb)
    case (Inl x)
    with run rd dt have "w' = wb" by simp
    then show ?thesis using rd Inl by (intro early) auto
  next
    case coin: (Inr c)
    show ?thesis
    proof (cases "signals pid period_list ind w0")
      case (Inl x)
      with run rd dt coin have "w' = wb" by simp
      then show ?thesis using Inl by (intro early) auto
    next
      case sg: (Inr flags)
      obtain b s where flags: "flags = (b, s)" by (cases flags)
      show ?thesis
      proof (cases "get_product_by_product_id w0 pid")
        case None
        with run rd dt coin sg flags have "w' = wb" by simp
        then show ?thesis using None by (intro early) auto
      next
        case (Some k)
        from get_product_Some [OF Some] have k: "k < length (products w0)" by simp
        then have kb: "k < length (products wb)" using pb by simp
        let ?p = "products w0 ! k"
        have "\<exists>p'. products w' = (products w0)[k := p'] \<and> buy_flag p' = b \<and>
                 sell_flag p' = (\<not> b \<and> s) \<and>
                 last_signal_switch p' =
                   (if (b \<and> sell_flag ?p) \<or> (\<not> b \<and> s \<and> buy_flag ?p)
                    then time_time e (tick wb) else last_signal_switch ?p)"
        proof (cases b)
          case True
          with run rd dt coin sg flags Some have "buy_signal e pid k wb = (r, w')" by simp
          from buy_signal_effect [OF kb this] True pb show ?thesis by auto
        next
          case False
          show ?thesis
          proof (cases s)
            case True
            with run rd dt coin sg flags Some False
            have "sell_signal e k c wb = (r, w')" by simp
            from sell_signal_effect [OF kb this, of pid] True False pb show ?thesis by auto
          next
            case F: False
            with run rd dt coin sg flags Some False
            have "w' = upd_product k (\<lambda>p. p\<lparr>buy_flag := False, sell_flag := False\<rparr>) wb"
              by simp
            with False F pb show ?thesis
              by (intro exI [of _ "?p\<lparr>buy_flag := False, sell_flag := False\<rparr>"]) simp
          qed
        qed
        then obtain p' where pw: "products w' = (products w0)[k := p']"
          and bf: "buy_flag p' = b" and sf: "sell_flag p' = (\<not> b \<and> s)"
          and ls: "last_signal_switch p' =
                   (if (b \<and> sell_flag ?p) \<or> (\<not> b \<and> s \<and> buy_flag ?p)
                    then time_time e (tick wb) else last_signal_switch ?p)" by blast
        have at_k: "products w' ! k = p'" using pw k by simp
        have other: "\<And>j. j \<noteq> k \<Longrightarrow> products w' ! j = products w0 ! j" using pw by simp
        have one: "\<forall>j<length (products w0).
            \<not> (buy_flag (products w0 ! j) \<and> sell_flag (products w0 ! j)) \<longrightarrow>
            \<not> (buy_flag (products w' ! j) \<and> sell_flag (products w' ! j))"
        proof (intro allI impI)
          fix j
          assume "j < length (products w0)"
            and "\<not> (buy_flag (products w0 ! j) \<and> sell_flag (products w0 ! j))"
          then show "\<not> (buy_flag (products w' ! j) \<and> sell_flag (products w' ! j))"
            using at_k other [of j] bf sf by (cases "j = k") auto
        qed
        show ?thesis
          using one rd coin sg flags Some at_k bf sf ls by auto
      qed
    qed
  qed
qed


text \<open>
  C5. Whenever a call of \<^verbatim>\<open>determine_trades\<close> starts a worker thread, the engine is live, the
  product's \<^verbatim>\<open>order_in_progress\<close> flag is false, and: for a buy thread the buy intent
  holds and the quote-currency balance, divided by the ask minus one quote increment and
  truncated to 8 decimal places by \<^verbatim>\<open>round_coin\<close>, is at least the minimum size; for a sell
  thread the sell intent holds without the buy intent and the base-currency balance is at
  least the minimum size.
\<close>

theorem worker_start_conditions:
  assumes run: "determine_trades e pid period_list ind w0 = (r, w')"
    and started: "StartThread s i \<in> set (drop (length (calls w0)) (calls w'))"
  shows "is_live w0 \<and> get_product_by_product_id w0 pid = Some i \<and>
         \<not> order_in_progress (products w0 ! i) \<and>
         (s = Buy \<longrightarrow>
            (\<exists>ns. signals pid period_list ind w0 = Inr (True, ns)) \<and>
            (\<exists>t q bid quot size. tick w' = Suc t \<and> quoted_currency pid w' = Inr (Some q) \<and>
               dec_sub (get_ask e t i) (quote_increment (products w0 ! i)) = Inr bid \<and>
               dec_div q bid = Inr quot \<and> round_coin quot = Inr size \<and>
               valof (min_size (products w0 ! i)) \<le> valof size)) \<and>
         (s = Sell \<longrightarrow>
            signals pid period_list ind w0 = Inr (False, True) \<and>
            (\<exists>coin. base_currency pid w' = Inr (Some coin) \<and>
               valof (min_size (products w0 ! i)) \<le> valof coin))"
proof -
  have quiet: "\<And>xs. calls w' = calls w0 @ xs \<Longrightarrow> set xs \<subseteq> {GetAccounts} \<Longrightarrow> False"
    using started by auto
  have live: "is_live w0"
  proof (rule ccontr)
    assume n: "\<not> is_live w0"
    from simulated_is_refresh [OF n, of e pid period_list ind] run
    have "w' = snd (update_amounts e w0)" by (metis snd_conv)
    with update_amounts_refreshed [of w0 e] obtain xs where
      "calls w' = calls w0 @ xs" "set xs \<subseteq> {GetAccounts}"
      by (auto simp: refreshed_def)
    then show False by (rule quiet)
  qed
  obtain rb wb where rd: "read_balances e pid w0 = (rb, wb)"
    by (cases "read_balances e pid w0")
  from read_balances_effect [OF rd] have rf: "refreshed w0 wb"
    and bc: "\<And>c. rb = Inr c \<Longrightarrow> base_currency pid wb = Inr c" by blast+
  from rf obtain xs0 where pb: "products wb = products w0"
    and cb: "calls wb = calls w0 @ xs0" and xs0: "set xs0 \<subseteq> {GetAccounts}"
    by (auto simp: refreshed_def)
  have early: "w' = wb \<Longrightarrow> False" using cb xs0 quiet by blast
  note dt = determine_trades_live [OF live, of e pid period_list ind]
  show ?thesis
  proof (cases rb)
    case (Inl x)
    with run rd dt have "w' = wb" by simp
    then show ?thesis using early by blast
  next
    case coin: (Inr c)
    show ?thesis
    proof (cases "signals pid period_list ind w0")
      case (Inl x)
      with run rd dt coin have "w' = wb" by simp
      then show ?thesis using early by blast
    next
      case sg: (Inr flags)
      obtain b ns where flags: "flags = (b, ns)" by (cases flags)
      show ?thesis
      proof (cases "get_product_by_product_id w0 pid")
        case None
        with run rd dt coin sg flags have "w' = wb" by simp
        then show ?thesis using early by blast
      next
        case (Some k)
        from get_product_Some [OF Some] have k: "k < length (products w0)" by simp
        then have kb: "k < length (products wb)" using pb by simp
        show ?thesis
        proof (cases b)
          case True
          with run rd dt coin sg flags Some have "buy_signal e pid k wb = (r, w')" by simp
          from buy_signal_effect [OF kb this] obtain xs where
            cw: "calls w' = calls wb @ xs" and
            alt: "set xs \<subseteq> {GetAccounts} \<or>
              (\<exists>ys. xs = ys @ [StartThread Buy k] \<and> set ys \<subseteq> {GetAccounts} \<and>
                 \<not> order_in_progress (products wb ! k) \<and>
                 (\<exists>t q bid quot size. tick w' = Suc t \<and> quoted_currency pid w' = Inr (Some q) \<and>
                    dec_sub (get_ask e t k) (quote_increment (products wb ! k)) = Inr bid \<and>
                    dec_div q bid = Inr quot \<and> round_coin quot = Inr size \<and>
                    valof (min_size (products wb ! k)) \<le> valof size))"
            by blast
          from alt show ?thesis
          proof
            assume "set xs \<subseteq> {GetAccounts}"
            with cw cb xs0 have "calls w' = calls w0 @ (xs0 @ xs)" "set (xs0 @ xs) \<subseteq> {GetAccounts}"
              by simp_all
            then show ?thesis using quiet by blast
          next
            assume "\<exists>ys. xs = ys @ [StartThread Buy k] \<and> set ys \<subseteq> {GetAccounts} \<and>
                 \<not> order_in_progress (products wb ! k) \<and>
                 (\<exists>t q bid quot size. tick w' = Suc t \<and> quoted_currency pid w' = Inr (Some q) \<and>
                    dec_sub (get_ask e t k) (quote_increment (products wb ! k)) = Inr bid \<and>
                    dec_div q bid = Inr quot \<and> round_coin quot = Inr size \<and>
                    valof (min_size (products wb ! k)) \<le> valof size)"
            then obtain ys where xs: "xs = ys @ [StartThread Buy k]"
              and ys: "set ys \<subseteq> {GetAccounts}"
              and oip: "\<not> order_in_progress (products w0 ! k)"
              and amt: "\<exists>t q bid quot size. tick w' = Suc t \<and>
                    quoted_currency pid w' = Inr (Some q) \<and>
                    dec_sub (get_ask e t k) (quote_increment (products w0 ! k)) = Inr bid \<and>
                    dec_div q bid = Inr quot \<and> round_coin quot = Inr size \<and>
                    valof (min_size (products w0 ! k)) \<le> valof size"
              using pb by auto
            have "drop (length (calls w0)) (calls w') = xs0 @ ys @ [StartThread Buy k]"
              using cw cb xs by simp
            with started xs0 ys have "s = Buy \<and> i = k" by auto
            with live Some oip amt sg flags True show ?thesis by auto
          qed
        next
          case False
          show ?thesis
          proof (cases ns)
            case True
            with run rd dt coin sg flags Some False
            have "sell_signal e k c wb = (r, w')" by simp
            from sell_signal_effect [OF kb this, of pid] have
              bw: "base_currency pid w' = base_currency pid wb" and
              alt: "calls w' = calls wb \<or>
                (calls w' = calls wb @ [StartThread Sell k] \<and>
                 \<not> order_in_progress (products wb ! k) \<and>
                 (\<exists>a. c = Some a \<and> valof (min_size (products wb ! k)) \<le> valof a))"
              by blast+
            from alt show ?thesis
            proof
              assume "calls w' = calls wb"
              with cb xs0 show ?thesis using quiet by simp
            next
              assume "calls w' = calls wb @ [StartThread Sell k] \<and>
                 \<not> order_in_progress (products wb ! k) \<and>
                 (\<exists>a. c = Some a \<and> valof (min_size (products wb ! k)) \<le> valof a)"
              then obtain a where cw: "calls w' = calls wb @ [StartThread Sell k]"
                and oip: "\<not> order_in_progress (products w0 ! k)"
                and a: "c = Some a" "valof (min_size (products w0 ! k)) \<le> valof a"
                using pb by auto
              have "drop (length (calls w0)) (calls w') = xs0 @ [StartThread Sell k]"
                using cw cb by simp
              with started xs0 have sk: "s = Sell \<and> i = k" by auto
              have "base_currency pid w' = Inr (Some a)" using bw bc [OF coin] a by simp
              with sk live Some oip a sg flags True False show ?thesis by auto
            qed
          next
            case F: False
            with run rd dt coin sg flags Some False
            have "w' = upd_product k (\<lambda>p. p\<lparr>buy_flag := False, sell_flag := False\<rparr>) wb"
              by simp
            then have "calls w' = calls wb" by simp
            with cb xs0 show ?thesis using quiet by simp
          qed
        qed
      qed
    qed
  qed
qed

subsection \<open>Concrete runs\<close>

lemma update_amounts_fresh:
  "\<not> time_time e (tick w) - last_balance_update w > 1 \<Longrightarrow>
     update_amounts e w = (Inr (), next_tick w)"
  by (simp add: update_amounts_def Let_def next_tick_def)

lemma last_balance_update_frame [simp]:
  "last_balance_update (next_tick w) = last_balance_update w"
  "last_balance_update (upd_product i f w) = last_balance_update w"
  "last_balance_update (switch_signal e i b w) = last_balance_update w"
  "last_balance_update (start_thread s i w) = last_balance_update w"
  by (simp_all add: next_tick_def upd_product_def switch_signal_def start_thread_def)

lemma half_env_simps [simp]:
  "time_time half_env t = 1 / 2" "get_ask half_env t i = Dec False 50000 0"
  "get_bid half_env t i = Dec False 49990 0"
  "place_limit_order half_env t = Inr example_order" "cancel_all half_env t = Inr ()"
  "place_market_order half_env t = Inr ()" "cancel_order half_env t = Inr ()"
  "get_order half_env t = Inr example_order" "other_threads half_env t i p = p"
  by (simp_all add: half_env_def example_env_def)

lemma example_engine_simps [simp]:
  "products (example_engine ps) = ps" "fiat_currency (example_engine ps) = ''USD''"
  "is_live (example_engine ps)" "max_slippage (example_engine ps) = Dec False 10 (- 2)"
  "btc (example_engine ps) = Some (Dec False 0 (- 8))"
  "fiat (example_engine ps) = Some (Dec False 10000 (- 2))"
  "last_balance_update (example_engine ps) = 0" "tick (example_engine ps) = 0"
  "calls (example_engine ps) = []"
  by (simp_all add: example_engine_def)

lemma example_product_simps [simp]:
  "product_id (example_product pid bf sf) = pid"
  "min_size (example_product pid bf sf) = Dec False 1 (- 3)"
  "quote_increment (example_product pid bf sf) = Dec False 1 (- 2)"
  "buy_flag (example_product pid bf sf) = bf" "sell_flag (example_product pid bf sf) = sf"
  "\<not> order_in_progress (example_product pid bf sf)"
  "open_orders (example_product pid bf sf) = []"
  "last_signal_switch (example_product pid bf sf) = 0"
  by (simp_all add: example_product_def)

lemma read_balances_half:
  "read_balances half_env ''BTC-USD'' (example_engine ps) =
     (Inr (Some (Dec False 0 (- 8))), next_tick (next_tick (example_engine ps)))"
  by (simp add: read_balances_def get_base_currency_from_product_id_def update_amounts_fresh
      bind_res_def base_currency_def getattr_def)

lemma example_signals:
  "signals ''BTC-USD'' [''P1'', ''P2''] example_indicators w = Inr (True, False)"
  using example_combined
  by (simp add: signals_def cross_pair_gate_def bind_exn_def del: combine_periods.simps)

theorem flag_transition_witness:
  "is_live selling_engine \<and>
   read_balances half_env ''BTC-USD'' selling_engine =
     (Inr (Some (Dec False 0 (- 8))), next_tick (next_tick selling_engine)) \<and>
   signals ''BTC-USD'' [''P1'', ''P2''] example_indicators selling_engine = Inr (True, False) \<and>
   get_product_by_product_id selling_engine ''BTC-USD'' = Some 0 \<and>
   sell_flag (products selling_engine ! 0) \<and>
   buy_flag (products (snd (determine_trades half_env ''BTC-USD'' [''P1'', ''P2'']
      example_indicators selling_engine)) ! 0) \<and>
   \<not> sell_flag (products (snd (determine_trades half_env ''BTC-USD'' [''P1'', ''P2'']
      example_indicators selling_engine)) ! 0) \<and>
   last_signal_switch (products (snd (determine_trades half_env ''BTC-USD'' [''P1'', ''P2'']
      example_indicators selling_engine)) ! 0) = 1 / 2"
proof -
  have live: "is_live selling_engine" by (simp add: selling_engine_def)
  have rd: "read_balances half_env ''BTC-USD'' selling_engine =
     (Inr (Some (Dec False 0 (- 8))), next_tick (next_tick selling_engine))"
    unfolding selling_engine_def by (rule read_balances_half)
  have gp: "get_product_by_product_id selling_engine ''BTC-USD'' = Some 0"
    by (simp add: get_product_by_product_id_def selling_engine_def)
  have sf: "sell_flag (products selling_engine ! 0)" by (simp add: selling_engine_def)
  have run: "determine_trades half_env ''BTC-USD'' [''P1'', ''P2''] example_indicators
      selling_engine =
     (fst (determine_trades half_env ''BTC-USD'' [''P1'', ''P2''] example_indicators selling_engine),
      snd (determine_trades half_env ''BTC-USD'' [''P1'', ''P2''] example_indicators selling_engine))"
    by simp
  from flag_transition [OF live run, of "Some (Dec False 0 (- 8))"
      "next_tick (next_tick selling_engine)" True False 0]
    rd example_signals [of selling_engine] gp sf live
  show ?thesis by simp
qed


lemma price_49999:
  "dec_sub (Dec False 50000 0) (Dec False 1 (- 2)) = Inr (Dec False 4999999 (- 2))"
  "dec_sub (Dec False 50000 0) (Dec False (Suc 0) (- 2)) = Inr (Dec False 4999999 (- 2))"
  by (simp_all add: dec_eval Let_def)

lemma size_of_100:
  "dec_div (Dec False 10000 (- 2)) (Dec False 4999999 (- 2)) =
     Inr (Dec False 2000000400000080000016000003 (- 30))"
  by (simp add: dec_eval Let_def)

lemma round_size_of_100:
  "round_coin (Dec False 2000000400000080000016000003 (- 30)) = Inr (Dec False 200000 (- 8))"
  by (simp add: dec_eval Let_def)

lemma flat_run_calls:
  "calls (snd (determine_trades half_env ''BTC-USD'' [''P1'', ''P2''] example_indicators
      flat_engine)) = [StartThread Buy 0]"
proof -
  have live: "is_live flat_engine" by (simp add: flat_engine_def)
  have rd: "read_balances half_env ''BTC-USD'' flat_engine =
     (Inr (Some (Dec False 0 (- 8))), next_tick (next_tick flat_engine))"
    unfolding flat_engine_def by (rule read_balances_half)
  have gp: "get_product_by_product_id flat_engine ''BTC-USD'' = Some 0"
    by (simp add: get_product_by_product_id_def flat_engine_def)
  have "determine_trades half_env ''BTC-USD'' [''P1'', ''P2''] example_indicators flat_engine =
      buy_signal half_env ''BTC-USD'' 0 (next_tick (next_tick flat_engine))"
    by (simp add: determine_trades_live [OF live] rd example_signals gp)
  also have "calls (snd \<dots>) = [StartThread Buy 0]"
    by (simp add: buy_signal_def flat_engine_def switch_signal_def Let_def
        get_quoted_currency_from_product_id_def update_amounts_fresh bind_res_def
        quoted_currency_def getattr_def price_and_size_def bind_exn_def need_dec_def
        price_49999 size_of_100 round_size_of_100 valof_def)
  finally show ?thesis .
qed

theorem worker_start_conditions_witness:
  "StartThread Buy 0 \<in> set (drop (length (calls flat_engine))
      (calls (snd (determine_trades half_env ''BTC-USD'' [''P1'', ''P2''] example_indicators
         flat_engine)))) \<and>
   is_live flat_engine \<and> get_product_by_product_id flat_engine ''BTC-USD'' = Some 0 \<and>
   \<not> order_in_progress (products flat_engine ! 0) \<and>
   (\<exists>ns. signals ''BTC-USD'' [''P1'', ''P2''] example_indicators flat_engine = Inr (True, ns))"
proof -
  have st: "StartThread Buy 0 \<in> set (drop (length (calls flat_engine))
      (calls (snd (determine_trades half_env ''BTC-USD'' [''P1'', ''P2''] example_indicators
         flat_engine))))"
    by (simp add: flat_run_calls) (simp add: flat_engine_def)
  have run: "determine_trades half_env ''BTC-USD'' [''P1'', ''P2''] example_indicators
      flat_engine =
     (fst (determine_trades half_env ''BTC-USD'' [''P1'', ''P2''] example_indicators flat_engine),
      snd (determine_trades half_env ''BTC-USD'' [''P1'', ''P2''] example_indicators flat_engine))"
    by simp
  from worker_start_conditions [OF run st] st show ?thesis by simp
qed

section \<open>Placing a limit buy order\<close>

lemma full_amount_of_100:
  "dec_mul (Dec False 10000 (- 2)) (Dec False 10 (- 1)) = Inr (Dec False 100000 (- 3))"
  by (simp add: dec_eval Let_def)

lemma size_of_100_full:
  "dec_div (Dec False 100000 (- 3)) (Dec False 4999999 (- 2)) =
     Inr (Dec False 2000000400000080000016000003 (- 30))"
  by (simp add: dec_eval Let_def)

lemma size_above_minimum:
  "\<not> valof (Dec False 200000 (- 8)) < valof (Dec False 1 (- 3))"
  "valof (Dec False 1 (- 3)) \<le> valof (Dec False 200000 (- 8))"
  "\<not> valof (Dec False 200000 (- 8)) < valof (Dec False (Suc 0) (- 3))"
  "valof (Dec False (Suc 0) (- 3)) \<le> valof (Dec False 200000 (- 8))"
  by (simp_all add: valof_def)

text \<open>
  C7. A product BTC-USD with minimum size 0.001 and quote increment 0.01, a quote-currency
  balance of 100.00 and a best ask of 50000: \<^verbatim>\<open>place_buy\<close> with \<^verbatim>\<open>partial = '1.0'\<close> issues
  exactly one call to the exchange, a post-only limit buy order of size 0.00200000 at price
  49999.99, and returns the reply (or raises what the call raises), keeping the order among the
  open orders when its status is pending or open.
\<close>

theorem place_buy_example:
  assumes pid: "product_id (products w ! i) = ''BTC-USD''"
    and ms: "min_size (products w ! i) = Dec False 1 (- 3)"
    and qi: "quote_increment (products w ! i) = Dec False 1 (- 2)"
    and bal: "get_quoted_currency_from_product_id e ''BTC-USD'' w =
                (Inr (Some (Dec False 10000 (- 2))), w1)"
    and ask: "get_ask e (tick w1) i = Dec False 50000 0"
  shows "place_buy e i (Dec False 10 (- 1)) w =
           (case place_limit_order e (Suc (tick w1)) of
              Inl x \<Rightarrow>
                (Inl x, record_call (PlaceLimitOrder ''BTC-USD'' Buy (Dec False 200000 (- 8))
                          (Dec False 4999999 (- 2)) True) (next_tick w1))
            | Inr ret \<Rightarrow>
                (Inr ret, keep_open i ret
                   (record_call (PlaceLimitOrder ''BTC-USD'' Buy (Dec False 200000 (- 8))
                      (Dec False 4999999 (- 2)) True) (next_tick w1))))"
proof -
  from get_quoted_effect [OF bal] have p1: "products w1 = products w"
    by (simp add: refreshed_def)
  have ps: "price_and_size e i (Some (Dec False 100000 (- 3))) w1 =
      (Inr (Dec False 4999999 (- 2), Dec False 200000 (- 8)), next_tick w1)"
    by (simp add: price_and_size_def Let_def ask p1 qi price_49999 bind_exn_def need_dec_def
        size_of_100_full round_size_of_100)
  show ?thesis
    by (simp add: place_buy_def pid bal bind_res_def lift_def bind_exn_def need_dec_def
        full_amount_of_100 ps p1 ms size_above_minimum call_exchange_def
        split: sum.splits)
qed

lemma flat_quoted:
  "get_quoted_currency_from_product_id half_env ''BTC-USD'' flat_engine =
     (Inr (Some (Dec False 10000 (- 2))), next_tick flat_engine)"
  by (simp add: get_quoted_currency_from_product_id_def update_amounts_fresh bind_res_def
      quoted_currency_def getattr_def flat_engine_def)

theorem place_buy_example_witness:
  "product_id (products flat_engine ! 0) = ''BTC-USD'' \<and>
   min_size (products flat_engine ! 0) = Dec False 1 (- 3) \<and>
   quote_increment (products flat_engine ! 0) = Dec False 1 (- 2) \<and>
   get_quoted_currency_from_product_id half_env ''BTC-USD'' flat_engine =
     (Inr (Some (Dec False 10000 (- 2))), next_tick flat_engine) \<and>
   get_ask half_env (tick (next_tick flat_engine)) 0 = Dec False 50000 0 \<and>
   fst (place_buy half_env 0 (Dec False 10 (- 1)) flat_engine) = Inr example_order \<and>
   calls (snd (place_buy half_env 0 (Dec False 10 (- 1)) flat_engine)) =
     [PlaceLimitOrder ''BTC-USD'' Buy (Dec False 200000 (- 8)) (Dec False 4999999 (- 2)) True] \<and>
   open_orders (products (snd (place_buy half_env 0 (Dec False 10 (- 1)) flat_engine)) ! 0) =
     [example_order]"
proof -
  have pid: "product_id (products flat_engine ! 0) = ''BTC-USD''"
    and ms: "min_size (products flat_engine ! 0) = Dec False 1 (- 3)"
    and qi: "quote_increment (products flat_engine ! 0) = Dec False 1 (- 2)"
    by (simp_all add: flat_engine_def)
  have ask: "get_ask half_env (tick (next_tick flat_engine)) 0 = Dec False 50000 0" by simp
  from place_buy_example [OF pid ms qi flat_quoted ask] pid ms qi flat_quoted ask
  show ?thesis
    by (simp add: keep_open_def example_order_def record_call_def flat_engine_def)
qed

section \<open>The chase\<close>

subsection \<open>Escalation to a market order\<close>

lemma record_call_frame [simp]:
  "calls (record_call c w) = calls w @ [c]" "tick (record_call c w) = Suc (tick w)"
  "products (record_call c w) = products w" "is_live (record_call c w) = is_live w"
  "fiat_currency (record_call c w) = fiat_currency w"
  "max_slippage (record_call c w) = max_slippage w"
  "btc (record_call c w) = btc w" "bch (record_call c w) = bch w"
  "eth (record_call c w) = eth w" "ltc (record_call c w) = ltc w"
  "fiat (record_call c w) = fiat w"
  "last_balance_update (record_call c w) = last_balance_update w"
  by (simp_all add: record_call_def)

lemma buy_slippage_state: "snd (buy_slippage e i sp w) = next_tick w"
  by (simp add: buy_slippage_def)

lemma sell_slippage_state: "snd (sell_slippage e i sp w) = next_tick w"
  by (simp add: sell_slippage_def)

lemma buy_escalation:
  assumes slip: "buy_slippage e i sp w = (Inr True, w1)"
    and ca: "cancel_all e (tick w1) = Inr ()"
    and gq: "get_quoted_currency_from_product_id e (product_id (products w ! i))
               (record_call (CancelAll (product_id (products w ! i))) w1) = (Inr funds, w2)"
    and pm: "place_market_order e (tick w2) = Inr ()"
  shows "buy_body e i sp v w =
           (Inr Return, upd_product i (\<lambda>p. p\<lparr>order_in_progress := False\<rparr>)
              (record_call (PlaceMarketOrder (product_id (products w ! i)) Buy (Funds funds)) w2))"
    and "\<exists>xs. calls w2 = calls w @ CancelAll (product_id (products w ! i)) # xs \<and>
              set xs \<subseteq> {GetAccounts}"
    and "quoted_currency (product_id (products w ! i)) w2 = Inr funds"
    and "products w2 = products w"
proof -
  have w1: "w1 = next_tick w" using slip buy_slippage_state [of e i sp w] by simp
  from get_quoted_effect [OF gq] have rf: "refreshed (record_call (CancelAll (product_id (products w ! i))) w1) w2"
    and q: "quoted_currency (product_id (products w ! i)) w2 = Inr funds" by blast+
  from rf show p2: "products w2 = products w" by (simp add: refreshed_def w1)
  from rf show "\<exists>xs. calls w2 = calls w @ CancelAll (product_id (products w ! i)) # xs \<and>
              set xs \<subseteq> {GetAccounts}"
    by (auto simp: refreshed_def w1)
  from q show "quoted_currency (product_id (products w ! i)) w2 = Inr funds" .
  have esc: "buy_escalate e i w1 =
      (Inr (), upd_product i (\<lambda>p. p\<lparr>order_in_progress := False\<rparr>)
              (record_call (PlaceMarketOrder (product_id (products w ! i)) Buy (Funds funds)) w2))"
    using ca gq pm p2
    by (simp add: buy_escalate_def call_exchange_def bind_res_def w1)
  show "buy_body e i sp v w =
           (Inr Return, upd_product i (\<lambda>p. p\<lparr>order_in_progress := False\<rparr>)
              (record_call (PlaceMarketOrder (product_id (products w ! i)) Buy (Funds funds)) w2))"
    using slip esc by (simp add: buy_body_def bind_res_def)
qed

lemma sell_escalation:
  assumes slip: "sell_slippage e i sp w = (Inr True, w1)"
    and ca: "cancel_all e (tick w1) = Inr ()"
    and gb: "get_base_currency_from_product_id e (product_id (products w ! i)) True
               (record_call (CancelAll (product_id (products w ! i))) w1) = (Inr coin, w2)"
    and pm: "place_market_order e (tick w2) = Inr ()"
  shows "sell_body e i sp v w =
           (Inr Return, upd_product i (\<lambda>p. p\<lparr>order_in_progress := False\<rparr>)
              (record_call (PlaceMarketOrder (product_id (products w ! i)) Sell (Size coin)) w2))"
    and "\<exists>xs. calls w2 = calls w @ CancelAll (product_id (products w ! i)) # xs \<and>
              set xs \<subseteq> {GetAccounts}"
    and "base_currency (product_id (products w ! i)) w2 = Inr coin"
    and "products w2 = products w"
proof -
  have w1: "w1 = next_tick w" using slip sell_slippage_state [of e i sp w] by simp
  from get_base_effect [OF gb] have rf: "refreshed (record_call (CancelAll (product_id (products w ! i))) w1) w2"
    and q: "base_currency (product_id (products w ! i)) w2 = Inr coin" by blast+
  from rf show p2: "products w2 = products w" by (simp add: refreshed_def w1)
  from rf show "\<exists>xs. calls w2 = calls w @ CancelAll (product_id (products w ! i)) # xs \<and>
              set xs \<subseteq> {GetAccounts}"
    by (auto simp: refreshed_def w1)
  from q show "base_currency (product_id (products w ! i)) w2 = Inr coin" .
  have esc: "sell_escalate e i w1 =
      (Inr (), upd_product i (\<lambda>p. p\<lparr>order_in_progress := False\<rparr>)
              (record_call (PlaceMarketOrder (product_id (products w ! i)) Sell (Size coin)) w2))"
    using ca gb pm p2
    by (simp add: sell_escalate_def call_exchange_def bind_res_def w1)
  show "sell_body e i sp v w =
           (Inr Return, upd_product i (\<lambda>p. p\<lparr>order_in_progress := False\<rparr>)
              (record_call (PlaceMarketOrder (product_id (products w ! i)) Sell (Size coin)) w2))"
    using slip esc by (simp add: sell_body_def bind_res_def)
qed

lemma finish_returned: "finish_chase e i (Inr Returned) w = (Inr (), w)"
  by (simp add: finish_chase_def)


text \<open>
  An iteration that goes on hands its variables and state to the next one, and a
  \<^verbatim>\<open>return\<close> inside the loop is the return of the chase: nothing runs after it.
\<close>

lemma buy_loop_continue:
  "buy_cond i v w = Inr True \<Longrightarrow> buy_body e i sp v w = (Inr (Continue v1), w1) \<Longrightarrow>
     buy_loop e (Suc n) i sp v w = buy_loop e n i sp v1 w1"
  by simp

lemma sell_loop_continue:
  "sell_cond i v w = Inr True \<Longrightarrow> sell_body e i sp v w = (Inr (Continue v1), w1) \<Longrightarrow>
     sell_loop e (Suc n) i sp v w = sell_loop e n i sp v1 w1"
  by simp

lemma buy_returns_where_loop_returns:
  assumes "dec_sub (get_ask e (tick w) i) (quote_increment (products w ! i)) = Inr sp"
    and "place_buy e i (Dec False 5 (- 1))
           (next_tick (upd_product i (\<lambda>p. p\<lparr>order_in_progress := True\<rparr>) w)) = (Inr ret, w1)"
    and "get_quoted_currency_from_product_id e (product_id (products w1 ! i)) w1 =
           (Inr amount, w2)"
    and "buy_loop e n i sp \<lparr>v_ret = ret, v_price = price ret, v_amount = amount,
           v_last_order_update = 0\<rparr> w2 = Some (Inr Returned, W)"
    and "i < length (products w)"
  shows "buy e n i w = Some (Inr (), W)"
  using assms by (simp add: buy_def buy_try_def finish_chase_def Let_def)

lemma sell_returns_where_loop_returns:
  assumes "dec_add (get_bid e (tick w) i) (quote_increment (products w ! i)) = Inr sp"
    and "place_sell e i (Dec False 5 (- 1))
           (next_tick (upd_product i (\<lambda>p. p\<lparr>order_in_progress := True\<rparr>) w)) = (Inr ret, w1)"
    and "get_base_currency_from_product_id e (product_id (products w1 ! i)) True w1 =
           (Inr amount, w2)"
    and "sell_loop e n i sp \<lparr>v_ret = ret, v_price = price ret, v_amount = amount,
           v_last_order_update = 0\<rparr> w2 = Some (Inr Returned, W)"
    and "i < length (products w)"
  shows "sell e n i w = Some (Inr (), W)"
  using assms by (simp add: sell_def sell_try_def finish_chase_def Let_def)

text \<open>
  C1 (as amended). Whenever an iteration of the buy loop (sell loop) finds the slippage test
  true, and the \<^verbatim>\<open>cancel_all\<close> call, the balance read and the \<^verbatim>\<open>place_market_order\<close> call
  that follow return without raising, the chase cancels all orders of the product, places a
  market order for the full quote-currency balance (base-currency balance), clears
  \<^verbatim>\<open>order_in_progress\<close> and returns: the trace grows by the cancel-all, at most a balance
  refresh, and the market order, and by nothing else.
\<close>

theorem slippage_escalation:
  "(buy_cond i vb wb = Inr True \<and> buy_slippage e i spb wb = (Inr True, wb1) \<and>
    cancel_all e (tick wb1) = Inr () \<and>
    get_quoted_currency_from_product_id e (product_id (products wb ! i))
      (record_call (CancelAll (product_id (products wb ! i))) wb1) = (Inr funds, wb2) \<and>
    place_market_order e (tick wb2) = Inr () \<longrightarrow>
      buy_loop e (Suc n) i spb vb wb = Some (Inr Returned, escalated Buy i (Funds funds) wb2) \<and>
      finish_chase e i (Inr Returned) (escalated Buy i (Funds funds) wb2) =
        (Inr (), escalated Buy i (Funds funds) wb2) \<and>
      (\<exists>xs. calls (escalated Buy i (Funds funds) wb2) =
              calls wb @ CancelAll (product_id (products wb ! i)) # xs @
                [PlaceMarketOrder (product_id (products wb ! i)) Buy (Funds funds)] \<and>
            set xs \<subseteq> {GetAccounts}) \<and>
      quoted_currency (product_id (products wb ! i)) wb2 = Inr funds \<and>
      (i < length (products wb) \<longrightarrow>
         \<not> order_in_progress (products (escalated Buy i (Funds funds) wb2) ! i))) \<and>
   (sell_cond i vs ws = Inr True \<and> sell_slippage e i sps ws = (Inr True, ws1) \<and>
    cancel_all e (tick ws1) = Inr () \<and>
    get_base_currency_from_product_id e (product_id (products ws ! i)) True
      (record_call (CancelAll (product_id (products ws ! i))) ws1) = (Inr coin, ws2) \<and>
    place_market_order e (tick ws2) = Inr () \<longrightarrow>
      sell_loop e (Suc n) i sps vs ws = Some (Inr Returned, escalated Sell i (Size coin) ws2) \<and>
      finish_chase e i (Inr Returned) (escalated Sell i (Size coin) ws2) =
        (Inr (), escalated Sell i (Size coin) ws2) \<and>
      (\<exists>xs. calls (escalated Sell i (Size coin) ws2) =
              calls ws @ CancelAll (product_id (products ws ! i)) # xs @
                [PlaceMarketOrder (product_id (products ws ! i)) Sell (Size coin)] \<and>
            set xs \<subseteq> {GetAccounts}) \<and>
      base_currency (product_id (products ws ! i)) ws2 = Inr coin \<and>
      (i < length (products ws) \<longrightarrow>
         \<not> order_in_progress (products (escalated Sell i (Size coin) ws2) ! i)))"
proof (intro conjI impI)
  assume h: "buy_cond i vb wb = Inr True \<and> buy_slippage e i spb wb = (Inr True, wb1) \<and>
    cancel_all e (tick wb1) = Inr () \<and>
    get_quoted_currency_from_product_id e (product_id (products wb ! i))
      (record_call (CancelAll (product_id (products wb ! i))) wb1) = (Inr funds, wb2) \<and>
    place_market_order e (tick wb2) = Inr ()"
  then have c: "buy_cond i vb wb = Inr True" and s: "buy_slippage e i spb wb = (Inr True, wb1)"
    and ca: "cancel_all e (tick wb1) = Inr ()"
    and gq: "get_quoted_currency_from_product_id e (product_id (products wb ! i))
      (record_call (CancelAll (product_id (products wb ! i))) wb1) = (Inr funds, wb2)"
    and pm: "place_market_order e (tick wb2) = Inr ()" by blast+
  note esc = buy_escalation [OF s ca gq pm]
  have body: "buy_body e i spb vb wb = (Inr Return, escalated Buy i (Funds funds) wb2)"
    using esc(1) [of vb] esc(4) by (simp add: escalated_def)
  show "buy_loop e (Suc n) i spb vb wb = Some (Inr Returned, escalated Buy i (Funds funds) wb2)"
    using c body by simp
  show "finish_chase e i (Inr Returned) (escalated Buy i (Funds funds) wb2) =
        (Inr (), escalated Buy i (Funds funds) wb2)" by (rule finish_returned)
  show "\<exists>xs. calls (escalated Buy i (Funds funds) wb2) =
              calls wb @ CancelAll (product_id (products wb ! i)) # xs @
                [PlaceMarketOrder (product_id (products wb ! i)) Buy (Funds funds)] \<and>
            set xs \<subseteq> {GetAccounts}"
    using esc(2) esc(4) by (auto simp: escalated_def)
  show "quoted_currency (product_id (products wb ! i)) wb2 = Inr funds" by (rule esc(3))
  show "\<not> order_in_progress (products (escalated Buy i (Funds funds) wb2) ! i)"
    if "i < length (products wb)"
    using that esc(4) by (simp add: escalated_def)
next
  assume h: "sell_cond i vs ws = Inr True \<and> sell_slippage e i sps ws = (Inr True, ws1) \<and>
    cancel_all e (tick ws1) = Inr () \<and>
    get_base_currency_from_product_id e (product_id (products ws ! i)) True
      (record_call (CancelAll (product_id (products ws ! i))) ws1) = (Inr coin, ws2) \<and>
    place_market_order e (tick ws2) = Inr ()"
  then have c: "sell_cond i vs ws = Inr True" and s: "sell_slippage e i sps ws = (Inr True, ws1)"
    and ca: "cancel_all e (tick ws1) = Inr ()"
    and gb: "get_base_currency_from_product_id e (product_id (products ws ! i)) True
      (record_call (CancelAll (product_id (products ws ! i))) ws1) = (Inr coin, ws2)"
    and pm: "place_market_order e (tick ws2) = Inr ()" by blast+
  note esc = sell_escalation [OF s ca gb pm]
  have body: "sell_body e i sps vs ws = (Inr Return, escalated Sell i (Size coin) ws2)"
    using esc(1) [of vs] esc(4) by (simp add: escalated_def)
  show "sell_loop e (Suc n) i sps vs ws = Some (Inr Returned, escalated Sell i (Size coin) ws2)"
    using c body by simp
  show "finish_chase e i (Inr Returned) (escalated Sell i (Size coin) ws2) =
        (Inr (), escalated Sell i (Size coin) ws2)" by (rule finish_returned)
  show "\<exists>xs. calls (escalated Sell i (Size coin) ws2) =
              calls ws @ CancelAll (product_id (products ws ! i)) # xs @
                [PlaceMarketOrder (product_id (products ws ! i)) Sell (Size coin)] \<and>
            set xs \<subseteq> {GetAccounts}"
    using esc(2) esc(4) by (auto simp: escalated_def)
  show "base_currency (product_id (products ws ! i)) ws2 = Inr coin" by (rule esc(3))
  show "\<not> order_in_progress (products (escalated Sell i (Size coin) ws2) ! i)"
    if "i < length (products ws)"
    using that esc(4) by (simp add: escalated_def)
qed


lemma surge_env_simps [simp]:
  "time_time surge_env t = 1 / 2" "get_ask surge_env t i = Dec False 60000 0"
  "get_bid surge_env t i = Dec False 40000 0" "cancel_all surge_env t = Inr ()"
  "place_market_order surge_env t = Inr ()"
  by (simp_all add: surge_env_def half_env_def example_env_def)

lemma cancel_fails_env_simps [simp]:
  "time_time cancel_fails_env t = 1 / 2" "get_ask cancel_fails_env t i = Dec False 60000 0"
  "get_bid cancel_fails_env t i = Dec False 40000 0"
  "cancel_all cancel_fails_env t = Inl ExchangeError"
  by (simp_all add: cancel_fails_env_def surge_env_def half_env_def example_env_def)

lemma example_vars_simps [simp]:
  "v_amount example_vars = Some (Dec False 10000 (- 2))"
  "v_price example_vars = Some (Dec False 4999999 (- 2))" "v_ret example_vars = example_order"
  "v_last_order_update example_vars = 0"
  by (simp_all add: example_vars_def)

lemma buying_engine_simps [simp]:
  "products buying_engine = [example_product ''BTC-USD'' True False]"
  "max_slippage buying_engine = Dec False 10 (- 2)" "calls buying_engine = []"
  "last_balance_update buying_engine = 0" "fiat buying_engine = Some (Dec False 10000 (- 2))"
  "tick buying_engine = 0"
  by (simp_all add: buying_engine_def)

lemma holding_engine_simps [simp]:
  "products holding_engine = [example_product ''BTC-USD'' False True]"
  "max_slippage holding_engine = Dec False 10 (- 2)" "calls holding_engine = []"
  "last_balance_update holding_engine = 0"
  "btc holding_engine = Some (Dec False 100000000 (- 8))" "tick holding_engine = 0"
  by (simp_all add: holding_engine_def selling_engine_def)

lemma surge_exceeds_buy:
  "bind_exn (dec_sub (Dec False 60000 0) (Dec False 1 (- 2))) (\<lambda>a.
   bind_exn (dec_div a (Dec False 4999999 (- 2))) (\<lambda>b.
   bind_exn (dec_sub b (Dec False 10 (- 1))) (\<lambda>c.
   bind_exn (dec_mul c (Dec False 1000 (- 1))) (\<lambda>d.
   Inr (valof d > valof (Dec False 10 (- 2))))))) = Inr True"
  by (simp add: bind_exn_def dec_eval Let_def valof_def)

lemma surge_exceeds_sell:
  "bind_exn (dec_add (Dec False 40000 0) (Dec False 1 (- 2))) (\<lambda>a.
   bind_exn (dec_div a (Dec False 4999001 (- 2))) (\<lambda>b.
   bind_exn (dec_sub (Dec False 1 0) b) (\<lambda>c.
   bind_exn (dec_mul c (Dec False 1000 (- 1))) (\<lambda>d.
   Inr (valof d > valof (Dec False 10 (- 2))))))) = Inr True"
  by (simp add: bind_exn_def dec_eval Let_def valof_def)

lemma surge_buy_slippage:
  "buy_slippage surge_env 0 (Dec False 4999999 (- 2)) buying_engine =
     (Inr True, next_tick buying_engine)"
  "buy_slippage cancel_fails_env 0 (Dec False 4999999 (- 2)) buying_engine =
     (Inr True, next_tick buying_engine)"
  using surge_exceeds_buy by (simp_all add: buy_slippage_def del: One_nat_def)

lemma surge_sell_slippage:
  "sell_slippage surge_env 0 (Dec False 4999001 (- 2)) holding_engine =
     (Inr True, next_tick holding_engine)"
  using surge_exceeds_sell by (simp add: sell_slippage_def del: One_nat_def)

lemma example_conds:
  "buy_cond 0 example_vars buying_engine = Inr True"
  "sell_cond 0 example_vars holding_engine = Inr True"
  by (simp_all add: buy_cond_def sell_cond_def bind_exn_def need_dec_def valof_def)

lemma surge_quoted:
  "get_quoted_currency_from_product_id surge_env ''BTC-USD''
     (record_call (CancelAll ''BTC-USD'') (next_tick buying_engine)) =
   (Inr (Some (Dec False 10000 (- 2))),
    next_tick (record_call (CancelAll ''BTC-USD'') (next_tick buying_engine)))"
  by (simp add: get_quoted_currency_from_product_id_def update_amounts_fresh bind_res_def
      quoted_currency_def getattr_def)

lemma surge_base:
  "get_base_currency_from_product_id surge_env ''BTC-USD'' True
     (record_call (CancelAll ''BTC-USD'') (next_tick holding_engine)) =
   (Inr (Some (Dec False 100000000 (- 8))),
    next_tick (record_call (CancelAll ''BTC-USD'') (next_tick holding_engine)))"
  by (simp add: get_base_currency_from_product_id_def update_amounts_fresh bind_res_def
      base_currency_def getattr_def)

theorem slippage_escalation_witness:
  "buy_cond 0 example_vars buying_engine = Inr True \<and>
   buy_slippage surge_env 0 (Dec False 4999999 (- 2)) buying_engine =
     (Inr True, next_tick buying_engine) \<and>
   buy_loop surge_env (Suc 0) 0 (Dec False 4999999 (- 2)) example_vars buying_engine =
     Some (Inr Returned, escalated Buy 0 (Funds (Some (Dec False 10000 (- 2))))
       (next_tick (record_call (CancelAll ''BTC-USD'') (next_tick buying_engine)))) \<and>
   calls (escalated Buy 0 (Funds (Some (Dec False 10000 (- 2))))
       (next_tick (record_call (CancelAll ''BTC-USD'') (next_tick buying_engine)))) =
     [CancelAll ''BTC-USD'',
      PlaceMarketOrder ''BTC-USD'' Buy (Funds (Some (Dec False 10000 (- 2))))] \<and>
   sell_cond 0 example_vars holding_engine = Inr True \<and>
   sell_slippage surge_env 0 (Dec False 4999001 (- 2)) holding_engine =
     (Inr True, next_tick holding_engine) \<and>
   sell_loop surge_env (Suc 0) 0 (Dec False 4999001 (- 2)) example_vars holding_engine =
     Some (Inr Returned, escalated Sell 0 (Size (Some (Dec False 100000000 (- 8))))
       (next_tick (record_call (CancelAll ''BTC-USD'') (next_tick holding_engine)))) \<and>
   calls (escalated Sell 0 (Size (Some (Dec False 100000000 (- 8))))
       (next_tick (record_call (CancelAll ''BTC-USD'') (next_tick holding_engine)))) =
     [CancelAll ''BTC-USD'',
      PlaceMarketOrder ''BTC-USD'' Sell (Size (Some (Dec False 100000000 (- 8))))]"
proof -
  note t = slippage_escalation [of 0 example_vars buying_engine surge_env
      "Dec False 4999999 (- 2)" "next_tick buying_engine" "Some (Dec False 10000 (- 2))"
      "next_tick (record_call (CancelAll ''BTC-USD'') (next_tick buying_engine))" 0
      example_vars holding_engine "Dec False 4999001 (- 2)" "next_tick holding_engine"
      "Some (Dec False 100000000 (- 8))"
      "next_tick (record_call (CancelAll ''BTC-USD'') (next_tick holding_engine))"]
  have b: "buy_loop surge_env (Suc 0) 0 (Dec False 4999999 (- 2)) example_vars buying_engine =
     Some (Inr Returned, escalated Buy 0 (Funds (Some (Dec False 10000 (- 2))))
       (next_tick (record_call (CancelAll ''BTC-USD'') (next_tick buying_engine))))"
    using t example_conds(1) surge_buy_slippage(1) surge_quoted by simp
  have s: "sell_loop surge_env (Suc 0) 0 (Dec False 4999001 (- 2)) example_vars holding_engine =
     Some (Inr Returned, escalated Sell 0 (Size (Some (Dec False 100000000 (- 8))))
       (next_tick (record_call (CancelAll ''BTC-USD'') (next_tick holding_engine))))"
    using t example_conds(2) surge_sell_slippage surge_base by simp
  show ?thesis
    using b s example_conds surge_buy_slippage(1) surge_sell_slippage
    by (simp add: escalated_def del: buy_loop.simps sell_loop.simps)
qed

text \<open>
  C1 as stated fails when the exchange raises: the iteration finds the slippage test true,
  \<^verbatim>\<open>cancel_all\<close> raises, and the loop ends with that exception; the trace holds the
  cancel-all and no market order.
\<close>

theorem slippage_escalation_counterexample:
  "buy_cond 0 example_vars buying_engine = Inr True \<and>
   buy_slippage cancel_fails_env 0 (Dec False 4999999 (- 2)) buying_engine =
     (Inr True, next_tick buying_engine) \<and>
   buy_loop cancel_fails_env (Suc 0) 0 (Dec False 4999999 (- 2)) example_vars buying_engine =
     Some (Inl ExchangeError, record_call (CancelAll ''BTC-USD'') (next_tick buying_engine)) \<and>
   calls (record_call (CancelAll ''BTC-USD'') (next_tick buying_engine)) =
     [CancelAll ''BTC-USD'']"
  by (simp add: example_conds surge_buy_slippage buy_body_def buy_escalate_def bind_res_def
      call_exchange_def)

subsection \<open>A chase that returns has cleared the flag\<close>

lemma bind_res_len:
  assumes "length (products (snd m)) = L"
    and "\<And>a w. length (products w) = L \<Longrightarrow> length (products (snd (f a w))) = L"
  shows "length (products (snd (bind_res m f))) = L"
  using assms by (cases m; cases "fst m") (auto simp: bind_res_def)

lemma refreshed_len: "refreshed w w' \<Longrightarrow> length (products w') = length (products w)"
  by (simp add: refreshed_def)

lemma get_quoted_len:
  "length (products (snd (get_quoted_currency_from_product_id e pid w))) = length (products w)"
  using get_quoted_effect [of e pid w] refreshed_len
  by (cases "get_quoted_currency_from_product_id e pid w") auto

lemma get_base_len:
  "length (products (snd (get_base_currency_from_product_id e pid True w))) = length (products w)"
  using get_base_effect [of e pid w] refreshed_len
  by (cases "get_base_currency_from_product_id e pid True w") auto

lemma price_and_size_len:
  "length (products (snd (price_and_size e i a w))) = length (products w)"
  by (simp add: price_and_size_def Let_def)

lemma keep_open_len: "length (products (keep_open i ret w)) = length (products w)"
  by (simp add: keep_open_def)

lemma sleep_len: "length (products (sleep e w)) = length (products w)"
  by (simp add: sleep_def)

lemma place_buy_len:
  "length (products (snd (place_buy e i p w))) = length (products w)"
  unfolding place_buy_def
  by (intro bind_res_len)
     (auto simp: get_quoted_len price_and_size_len keep_open_len lift_def call_exchange_def
        split: prod.splits intro!: bind_res_len)

lemma place_sell_len:
  "length (products (snd (place_sell e i p w))) = length (products w)"
  unfolding place_sell_def
  by (intro bind_res_len)
     (auto simp: get_base_len keep_open_len lift_def call_exchange_def
        split: prod.splits intro!: bind_res_len)

lemma cancel_others_len:
  "length (products (snd (cancel_others e keep ords w))) = length (products w)"
proof (induction ords arbitrary: w)
  case Nil
  then show ?case by simp
next
  case (Cons ord ords)
  show ?case
    by (auto simp: Cons.IH call_exchange_def intro!: bind_res_len)
qed


lemma buy_reprice_len:
  "length (products (snd (buy_reprice e i v w))) = length (products w)"
  unfolding buy_reprice_def
  by (auto simp: place_buy_len cancel_others_len split: option.splits intro!: bind_res_len)

lemma sell_reprice_len:
  "length (products (snd (sell_reprice e i v w))) = length (products w)"
  unfolding sell_reprice_def
  by (auto simp: place_sell_len cancel_others_len split: option.splits intro!: bind_res_len)

lemma buy_refresh_len:
  "length (products (snd (buy_refresh e v w))) = length (products w)"
  by (auto simp: buy_refresh_def split: option.splits sum.splits)

lemma sell_refresh_len:
  "length (products (snd (sell_refresh e v w))) = length (products w)"
  by (auto simp: sell_refresh_def split: option.splits sum.splits)

lemma buy_escalate_len:
  "length (products (snd (buy_escalate e i w))) = length (products w)"
  unfolding buy_escalate_def
  by (auto simp: get_quoted_len call_exchange_def intro!: bind_res_len)

lemma sell_escalate_len:
  "length (products (snd (sell_escalate e i w))) = length (products w)"
  unfolding sell_escalate_def
  by (auto simp: get_base_len call_exchange_def intro!: bind_res_len)

lemma buy_escalate_unlocks:
  assumes "buy_escalate e i w = (Inr u, W)" and "i < length (products w)"
  shows "\<not> order_in_progress (products W ! i)"
proof -
  obtain r1 w1 where c: "call_exchange (CancelAll (product_id (products w ! i)))
      (cancel_all e (tick w)) w = (r1, w1)" by (simp add: call_exchange_def)
  then have l1: "length (products w1) = length (products w)" by (auto simp: call_exchange_def)
  obtain r2 w2 where q: "get_quoted_currency_from_product_id e (product_id (products w1 ! i)) w1
      = (r2, w2)" by (cases "get_quoted_currency_from_product_id e (product_id (products w1 ! i)) w1")
  have l2: "length (products w2) = length (products w)"
    using get_quoted_len [of e "product_id (products w1 ! i)" w1] q l1 by simp
  show ?thesis
    using assms c q l2
    by (auto simp: buy_escalate_def bind_res_def call_exchange_def split: sum.splits)
qed

lemma sell_escalate_unlocks:
  assumes "sell_escalate e i w = (Inr u, W)" and "i < length (products w)"
  shows "\<not> order_in_progress (products W ! i)"
proof -
  obtain r1 w1 where c: "call_exchange (CancelAll (product_id (products w ! i)))
      (cancel_all e (tick w)) w = (r1, w1)" by (simp add: call_exchange_def)
  then have l1: "length (products w1) = length (products w)" by (auto simp: call_exchange_def)
  obtain r2 w2 where q: "get_base_currency_from_product_id e (product_id (products w1 ! i)) True w1
      = (r2, w2)"
    by (cases "get_base_currency_from_product_id e (product_id (products w1 ! i)) True w1")
  have l2: "length (products w2) = length (products w)"
    using get_base_len [of e "product_id (products w1 ! i)" w1] q l1 by simp
  show ?thesis
    using assms c q l2
    by (auto simp: sell_escalate_def bind_res_def call_exchange_def split: sum.splits)
qed

lemma buy_body_len:
  "length (products (snd (buy_body e i sp v w))) = length (products w)"
  unfolding buy_body_def
  by (auto simp: buy_slippage_def buy_escalate_len buy_reprice_len buy_refresh_len
      get_quoted_len sleep_len intro!: bind_res_len)

lemma sell_body_len:
  "length (products (snd (sell_body e i sp v w))) = length (products w)"
  unfolding sell_body_def
  by (auto simp: sell_slippage_def sell_escalate_len sell_reprice_len sell_refresh_len
      get_base_len sleep_len intro!: bind_res_len)

lemma buy_body_return_unlocks:
  assumes "buy_body e i sp v w = (Inr Return, W)" and "i < length (products w)"
  shows "\<not> order_in_progress (products W ! i)"
proof -
  obtain r1 where s: "buy_slippage e i sp w = (r1, next_tick w)"
    by (simp add: buy_slippage_def)
  obtain r2 w2 where esc: "buy_escalate e i (next_tick w) = (r2, w2)"
    by (cases "buy_escalate e i (next_tick w)")
  have "r1 = Inr True \<and> (\<exists>u. r2 = Inr u) \<and> W = w2"
    using assms(1) s esc
    by (auto simp: buy_body_def bind_res_def split: sum.splits if_splits prod.splits)
  with esc assms(2) buy_escalate_unlocks [of e i "next_tick w" _ w2] show ?thesis by auto
qed

lemma sell_body_return_unlocks:
  assumes "sell_body e i sp v w = (Inr Return, W)" and "i < length (products w)"
  shows "\<not> order_in_progress (products W ! i)"
proof -
  obtain r1 where s: "sell_slippage e i sp w = (r1, next_tick w)"
    by (simp add: sell_slippage_def)
  obtain r2 w2 where esc: "sell_escalate e i (next_tick w) = (r2, w2)"
    by (cases "sell_escalate e i (next_tick w)")
  have "r1 = Inr True \<and> (\<exists>u. r2 = Inr u) \<and> W = w2"
    using assms(1) s esc
    by (auto simp: sell_body_def bind_res_def split: sum.splits if_splits prod.splits)
  with esc assms(2) sell_escalate_unlocks [of e i "next_tick w" _ w2] show ?thesis by auto
qed

lemma buy_loop_len:
  "buy_loop e n i sp v w = Some (r, W) \<Longrightarrow> length (products W) = length (products w)"
proof (induction n arbitrary: v w)
  case 0
  then show ?case by simp
next
  case (Suc n)
  obtain rb wb where b: "buy_body e i sp v w = (rb, wb)" by (cases "buy_body e i sp v w")
  have lb: "length (products wb) = length (products w)"
    using buy_body_len [of e i sp v w] b by simp
  from Suc.prems b lb show ?case
    by (auto split: sum.splits if_splits step.splits dest: Suc.IH)
qed

lemma sell_loop_len:
  "sell_loop e n i sp v w = Some (r, W) \<Longrightarrow> length (products W) = length (products w)"
proof (induction n arbitrary: v w)
  case 0
  then show ?case by simp
next
  case (Suc n)
  obtain rb wb where b: "sell_body e i sp v w = (rb, wb)" by (cases "sell_body e i sp v w")
  have lb: "length (products wb) = length (products w)"
    using sell_body_len [of e i sp v w] b by simp
  from Suc.prems b lb show ?case
    by (auto split: sum.splits if_splits step.splits dest: Suc.IH)
qed

lemma buy_loop_returned_unlocks:
  "buy_loop e n i sp v w = Some (Inr Returned, W) \<Longrightarrow> i < length (products w) \<Longrightarrow>
     \<not> order_in_progress (products W ! i)"
proof (induction n arbitrary: v w)
  case 0
  then show ?case by simp
next
  case (Suc n)
  obtain rb wb where b: "buy_body e i sp v w = (rb, wb)" by (cases "buy_body e i sp v w")
  have lb: "length (products wb) = length (products w)"
    using buy_body_len [of e i sp v w] b by simp
  from Suc.prems b lb show ?case
    by (auto split: sum.splits if_splits step.splits
        dest: Suc.IH buy_body_return_unlocks)
qed

lemma sell_loop_returned_unlocks:
  "sell_loop e n i sp v w = Some (Inr Returned, W) \<Longrightarrow> i < length (products w) \<Longrightarrow>
     \<not> order_in_progress (products W ! i)"
proof (induction n arbitrary: v w)
  case 0
  then show ?case by simp
next
  case (Suc n)
  obtain rb wb where b: "sell_body e i sp v w = (rb, wb)" by (cases "sell_body e i sp v w")
  have lb: "length (products wb) = length (products w)"
    using sell_body_len [of e i sp v w] b by simp
  from Suc.prems b lb show ?case
    by (auto split: sum.splits if_splits step.splits
        dest: Suc.IH sell_body_return_unlocks)
qed


lemma buy_try_result:
  assumes run: "buy_try e n i sp w = Some (r, W)"
  shows "length (products W) = length (products w) \<and>
         (r = Inr Returned \<longrightarrow> i < length (products w) \<longrightarrow>
            \<not> order_in_progress (products W ! i))"
proof -
  obtain r1 w1 where p: "place_buy e i (Dec False 5 (- 1)) w = (r1, w1)"
    by (cases "place_buy e i (Dec False 5 (- 1)) w")
  have l1: "length (products w1) = length (products w)"
    using place_buy_len [of e i "Dec False 5 (- 1)" w] p by simp
  obtain r2 w2 where q: "get_quoted_currency_from_product_id e (product_id (products w1 ! i)) w1
      = (r2, w2)" by (cases "get_quoted_currency_from_product_id e (product_id (products w1 ! i)) w1")
  have l2: "length (products w2) = length (products w)"
    using get_quoted_len [of e "product_id (products w1 ! i)" w1] q l1 by simp
  show ?thesis
  proof (cases r1)
    case (Inl x)
    with run p l1 show ?thesis by (auto simp: buy_try_def)
  next
    case ret: (Inr ret)
    show ?thesis
    proof (cases r2)
      case (Inl x)
      with run p ret q l2 show ?thesis by (auto simp: buy_try_def)
    next
      case amount: (Inr amount)
      let ?v = "\<lparr>v_ret = ret, v_price = price ret, v_amount = amount, v_last_order_update = 0\<rparr>"
      from run p ret q amount obtain r3 w3 where lp: "buy_loop e n i sp ?v w2 = Some (r3, w3)"
        by (cases "buy_loop e n i sp ?v w2") (auto simp: buy_try_def)
      have l3: "length (products w3) = length (products w)"
        using buy_loop_len [OF lp] l2 by simp
      show ?thesis
      proof (cases r3)
        case (Inl x)
        with run p ret q amount lp l3 show ?thesis by (auto simp: buy_try_def)
      next
        case fl: (Inr fl)
        show ?thesis
        proof (cases fl)
          case Returned
          with run p ret q amount lp fl have "r = Inr Returned" "W = w3"
            by (simp_all add: buy_try_def)
          with l3 l2 buy_loop_returned_unlocks [of e n i sp ?v w2 w3] lp fl Returned
          show ?thesis by simp
        next
          case Normal
          let ?m = "bind_res (call_exchange (CancelAll (product_id (products w3 ! i)))
                      (cancel_all e (tick w3)) w3) (\<lambda>_ w4.
                    bind_res (get_quoted_currency_from_product_id e
                                (product_id (products w4 ! i)) w4)
                      (\<lambda>_ w5. (Inr Normal, w5)))"
          from run p ret q amount lp fl Normal have rw: "(r, W) = ?m"
            by (simp add: buy_try_def)
          have "length (products (snd ?m)) = length (products w)"
            using l3 by (auto simp: call_exchange_def get_quoted_len intro!: bind_res_len)
          moreover have "fst ?m \<noteq> Inr Returned"
            by (auto simp: bind_res_def call_exchange_def split: sum.splits prod.splits)
          ultimately show ?thesis using rw by (metis fst_conv snd_conv)
        qed
      qed
    qed
  qed
qed

lemma sell_try_result:
  assumes run: "sell_try e n i sp w = Some (r, W)"
  shows "length (products W) = length (products w) \<and>
         (r = Inr Returned \<longrightarrow> i < length (products w) \<longrightarrow>
            \<not> order_in_progress (products W ! i))"
proof -
  obtain r1 w1 where p: "place_sell e i (Dec False 5 (- 1)) w = (r1, w1)"
    by (cases "place_sell e i (Dec False 5 (- 1)) w")
  have l1: "length (products w1) = length (products w)"
    using place_sell_len [of e i "Dec False 5 (- 1)" w] p by simp
  obtain r2 w2 where q: "get_base_currency_from_product_id e (product_id (products w1 ! i)) True w1
      = (r2, w2)"
    by (cases "get_base_currency_from_product_id e (product_id (products w1 ! i)) True w1")
  have l2: "length (products w2) = length (products w)"
    using get_base_len [of e "product_id (products w1 ! i)" w1] q l1 by simp
  show ?thesis
  proof (cases r1)
    case (Inl x)
    with run p l1 show ?thesis by (auto simp: sell_try_def)
  next
    case ret: (Inr ret)
    show ?thesis
    proof (cases r2)
      case (Inl x)
      with run p ret q l2 show ?thesis by (auto simp: sell_try_def)
    next
      case amount: (Inr amount)
      let ?v = "\<lparr>v_ret = ret, v_price = price ret, v_amount = amount, v_last_order_update = 0\<rparr>"
      from run p ret q amount obtain r3 w3 where lp: "sell_loop e n i sp ?v w2 = Some (r3, w3)"
        by (cases "sell_loop e n i sp ?v w2") (auto simp: sell_try_def)
      have l3: "length (products w3) = length (products w)"
        using sell_loop_len [OF lp] l2 by simp
      show ?thesis
      proof (cases r3)
        case (Inl x)
        with run p ret q amount lp l3 show ?thesis by (auto simp: sell_try_def)
      next
        case fl: (Inr fl)
        show ?thesis
        proof (cases fl)
          case Returned
          with run p ret q amount lp fl have "r = Inr Returned" "W = w3"
            by (simp_all add: sell_try_def)
          with l3 l2 sell_loop_returned_unlocks [of e n i sp ?v w2 w3] lp fl Returned
          show ?thesis by simp
        next
          case Normal
          let ?m = "bind_res (call_exchange (CancelAll (product_id (products w3 ! i)))
                      (cancel_all e (tick w3)) w3) (\<lambda>_ w4.
                    bind_res (get_base_currency_from_product_id e
                                (product_id (products w4 ! i)) True w4)
                      (\<lambda>_ w5. (Inr Normal, w5)))"
          from run p ret q amount lp fl Normal have rw: "(r, W) = ?m"
            by (simp add: sell_try_def)
          have "length (products (snd ?m)) = length (products w)"
            using l3 by (auto simp: call_exchange_def get_base_len intro!: bind_res_len)
          moreover have "fst ?m \<noteq> Inr Returned"
            by (auto simp: bind_res_def call_exchange_def split: sum.splits prod.splits)
          ultimately show ?thesis using rw by (metis fst_conv snd_conv)
        qed
      qed
    qed
  qed
qed

lemma finish_chase_unlocks:
  assumes "finish_chase e i r w = (Inr u, W)" and "i < length (products w)"
    and "r = Inr Returned \<longrightarrow> \<not> order_in_progress (products w ! i)"
  shows "\<not> order_in_progress (products W ! i)"
  using assms
  by (cases r; cases "projr r")
     (auto simp: finish_chase_def bind_res_def call_exchange_def Let_def split: sum.splits)

text \<open>
  What holds of the claim: a chase that returns, rather than ending with an exception, has
  cleared \<^verbatim>\<open>order_in_progress\<close>.
\<close>

lemma buy_returns_unlocked:
  assumes run: "buy e n i w = Some (Inr u, W)" and i: "i < length (products w)"
  shows "\<not> order_in_progress (products W ! i)"
proof -
  let ?w1 = "upd_product i (\<lambda>p. p\<lparr>order_in_progress := True\<rparr>) w"
  from run obtain sp where sp: "dec_sub (get_ask e (tick ?w1) i) (quote_increment (products ?w1 ! i))
      = Inr sp"
    by (cases "dec_sub (get_ask e (tick ?w1) i) (quote_increment (products ?w1 ! i))")
       (auto simp: buy_def Let_def)
  from run sp obtain r2 w2 where t: "buy_try e n i sp (next_tick ?w1) = Some (r2, w2)"
    and f: "finish_chase e i r2 w2 = (Inr u, W)"
    by (cases "buy_try e n i sp (next_tick ?w1)") (auto simp: buy_def Let_def)
  from buy_try_result [OF t] i have "length (products w2) = length (products w)"
    and "r2 = Inr Returned \<longrightarrow> \<not> order_in_progress (products w2 ! i)" by simp_all
  with f i show ?thesis by (intro finish_chase_unlocks [OF f]) simp_all
qed

lemma sell_returns_unlocked:
  assumes run: "sell e n i w = Some (Inr u, W)" and i: "i < length (products w)"
  shows "\<not> order_in_progress (products W ! i)"
proof -
  let ?w1 = "upd_product i (\<lambda>p. p\<lparr>order_in_progress := True\<rparr>) w"
  from run obtain sp where sp: "dec_add (get_bid e (tick ?w1) i) (quote_increment (products ?w1 ! i))
      = Inr sp"
    by (cases "dec_add (get_bid e (tick ?w1) i) (quote_increment (products ?w1 ! i))")
       (auto simp: sell_def Let_def)
  from run sp obtain r2 w2 where t: "sell_try e n i sp (next_tick ?w1) = Some (r2, w2)"
    and f: "finish_chase e i r2 w2 = (Inr u, W)"
    by (cases "sell_try e n i sp (next_tick ?w1)") (auto simp: sell_def Let_def)
  from sell_try_result [OF t] i have "length (products w2) = length (products w)"
    and "r2 = Inr Returned \<longrightarrow> \<not> order_in_progress (products w2 ! i)" by simp_all
  with f i show ?thesis by (intro finish_chase_unlocks [OF f]) simp_all
qed

subsection \<open>The end of a chase\<close>

lemma outage_env_simps [simp]:
  "time_time outage_env t = 1 / 2" "get_ask outage_env t i = Dec False 50000 0"
  "get_bid outage_env t i = Dec False 49990 0"
  "place_limit_order outage_env t = Inr example_order"
  "cancel_all outage_env t = (if t < 7 then Inr () else Inl ExchangeError)"
  by (simp_all add: outage_env_def half_env_def example_env_def)

lemma half_amount_of_100:
  "dec_mul (Dec False 10000 (- 2)) (Dec False 5 (- 1)) = Inr (Dec False 50000 (- 3))"
  by (simp add: dec_eval Let_def)

lemma size_of_50:
  "dec_div (Dec False 50000 (- 3)) (Dec False 4999999 (- 2)) =
     Inr (Dec False 1000000200000040000008000002 (- 30))"
  by (simp add: dec_eval Let_def)

lemma round_size_of_50:
  "round_coin (Dec False 1000000200000040000008000002 (- 30)) = Inr (Dec False 100000 (- 8))"
  by (simp add: dec_eval Let_def)

lemma size_at_minimum:
  "\<not> valof (Dec False 100000 (- 8)) < valof (Dec False 1 (- 3))"
  "valof (Dec False 1 (- 3)) \<le> valof (Dec False 100000 (- 8))"
  "\<not> valof (Dec False 100000 (- 8)) < valof (Dec False (Suc 0) (- 3))"
  "valof (Dec False (Suc 0) (- 3)) \<le> valof (Dec False 100000 (- 8))"
  by (simp_all add: valof_def)

lemma get_quoted_fresh:
  "\<not> time_time e (tick w) - last_balance_update w > 1 \<Longrightarrow>
     get_quoted_currency_from_product_id e pid w = (quoted_currency pid (next_tick w), next_tick w)"
  by (simp add: get_quoted_currency_from_product_id_def update_amounts_fresh bind_res_def)

lemma get_base_fresh:
  "\<not> time_time e (tick w) - last_balance_update w > 1 \<Longrightarrow>
     get_base_currency_from_product_id e pid True w = (base_currency pid (next_tick w), next_tick w)"
  by (simp add: get_base_currency_from_product_id_def update_amounts_fresh bind_res_def)

lemma buy_outage_run:
  "\<exists>W. buy outage_env (Suc 0) 0 flat_engine = Some (Inl ExchangeError, W) \<and>
       order_in_progress (products W ! 0) \<and>
       calls W = [PlaceLimitOrder ''BTC-USD'' Buy (Dec False 100000 (- 8))
                    (Dec False 4999999 (- 2)) True,
                  CancelAll ''BTC-USD'', CancelAll ''BTC-USD'']"
  by (simp add: buy_def buy_try_def place_buy_def finish_chase_def flat_engine_def Let_def
      get_quoted_fresh quoted_currency_def getattr_def bind_res_def lift_def bind_exn_def
      need_dec_def price_and_size_def price_49999 half_amount_of_100 size_of_50 round_size_of_50
      size_at_minimum call_exchange_def keep_open_def example_order_def buy_cond_def)


lemma half_of_nothing:
  "dec_mul (Dec False 0 (- 8)) (Dec False 5 (- 1)) = Inr (Dec False 0 (- 9))"
  "round_coin (Dec False 0 (- 9)) = Inr (Dec False 0 (- 8))"
  "dec_add (Dec False 49990 0) (Dec False 1 (- 2)) = Inr (Dec False 4999001 (- 2))"
  "dec_add (Dec False 49990 0) (Dec False (Suc 0) (- 2)) = Inr (Dec False 4999001 (- 2))"
  by (simp_all add: dec_eval Let_def)

lemma nothing_below_minimum:
  "valof (Dec False 0 (- 8)) < valof (Dec False 1 (- 3))"
  "\<not> valof (Dec False 1 (- 3)) \<le> valof (Dec False 0 (- 8))"
  "valof (Dec False 0 (- 8)) < valof (Dec False (Suc 0) (- 3))"
  "\<not> valof (Dec False (Suc 0) (- 3)) \<le> valof (Dec False 0 (- 8))"
  by (simp_all add: valof_def)

lemma sell_outage_run:
  "\<exists>W. sell outage_env (Suc 0) 0 flat_engine = Some (Inl ExchangeError, W) \<and>
       order_in_progress (products W ! 0) \<and>
       calls W = [CancelAll ''BTC-USD'', CancelAll ''BTC-USD'']"
  by (simp add: sell_def sell_try_def place_sell_def finish_chase_def flat_engine_def Let_def
      get_base_fresh base_currency_def getattr_def bind_res_def lift_def bind_exn_def
      need_dec_def half_of_nothing nothing_below_minimum call_exchange_def sell_cond_def)

text \<open>
  C6 fails on the code. The product's flag is clear, so the loop of the chase ends at its first
  test; the \<^verbatim>\<open>cancel_all\<close> inside the \<^verbatim>\<open>try\<close> returns, the one after the \<^verbatim>\<open>try\<close>
  statement raises, and the chase ends with that exception before the last line has cleared
  \<^verbatim>\<open>order_in_progress\<close>: the flag set at entry stays true.
\<close>

theorem chase_left_locked:
  "(\<exists>W. buy outage_env (Suc 0) 0 flat_engine = Some (Inl ExchangeError, W) \<and>
        order_in_progress (products W ! 0) \<and>
        calls W = [PlaceLimitOrder ''BTC-USD'' Buy (Dec False 100000 (- 8))
                     (Dec False 4999999 (- 2)) True,
                   CancelAll ''BTC-USD'', CancelAll ''BTC-USD'']) \<and>
   (\<exists>W. sell outage_env (Suc 0) 0 flat_engine = Some (Inl ExchangeError, W) \<and>
        order_in_progress (products W ! 0) \<and>
        calls W = [CancelAll ''BTC-USD'', CancelAll ''BTC-USD''])"
  using buy_outage_run sell_outage_run by blast

end
